theory Spec2Isabelle
  imports Main "HOL-Library.Word"
begin

unbundle bit_operations_syntax

section \<open>The PSL session core of pslse (psl.c)\<close>

text \<open>
  A shallow embedding of \<^verbatim>\<open>pslse/psl.c\<close>: the attach procedure, the client release
  routine, the per-client dispatcher, the scheduler loop of one AFU session and session
  creation. The job, MMIO and command subsystems, the socket helpers and the AFU event
  transport live in other files of the repository; every call into them is recorded as
  an \<open>event\<close> of the call's trace, and every value they return is an input of the
  model. Of the fields \<^verbatim>\<open>psl.c\<close> reads, those callees are taken to write only
  \<^verbatim>\<open>psl->state\<close>, \<^verbatim>\<open>psl->job->job\<close> and \<^verbatim>\<open>psl->mmio->list\<close>, which the
  model reads from its inputs.
\<close>

subsection \<open>Constants of the missing headers\<close>

text \<open>
  \<^verbatim>\<open>psl.h\<close>, \<^verbatim>\<open>psl_interface.h\<close> and the common headers are not part of the
  source at hand, so the macros and enumerators \<^verbatim>\<open>psl.c\<close> uses are parameters:
  one record holds them, and every function takes it first. The command and
  acknowledgement bytes are \<^verbatim>\<open>uint8_t\<close> values; the enumerators are C ints.
\<close>

type_synonym byte = "8 word"
type_synonym addr = nat

record config =
  PSL_IDLE_CYCLES :: int
  PSLSE_DETACH :: byte
  PSLSE_ATTACH :: byte
  PSLSE_MEM_FAILURE :: byte
  PSLSE_MEM_SUCCESS :: byte
  PSLSE_MMIO_MAP :: byte
  PSLSE_MMIO_WRITE64 :: byte
  PSLSE_MMIO_READ64 :: byte
  PSLSE_MMIO_WRITE32 :: byte
  PSLSE_MMIO_READ32 :: byte
  PSLSE_IDLE :: int
  PSLSE_DONE :: int
  MEM_DONE :: int
  PSL_RESPONSE_AERROR :: int
  PSL_JOB_START :: int
  PSL_SUCCESS :: int

text \<open>The nine command bytes of the client protocol are pairwise different.\<close>

definition commands :: "config \<Rightarrow> byte list" where
  "commands K =
     [PSLSE_DETACH K, PSLSE_ATTACH K, PSLSE_MEM_FAILURE K, PSLSE_MEM_SUCCESS K,
      PSLSE_MMIO_MAP K, PSLSE_MMIO_WRITE64 K, PSLSE_MMIO_READ64 K,
      PSLSE_MMIO_WRITE32 K, PSLSE_MMIO_READ32 K]"


subsection \<open>Data\<close>

text \<open>
  \<^verbatim>\<open>struct client\<close>. \<open>fd = -1\<close> is the closed socket, \<open>ip = None\<close> the NULL
  string; \<open>valid\<close> is 0 (free slot), 1 (connected) or -1 (detaching).
  \<open>mem_access\<close>, \<open>mmio_access\<close> and \<open>job\<close> are pointers, \<open>None\<close> for NULL.
  The field \<^verbatim>\<open>idle_cycles\<close> of the client is \<open>cl_idle_cycles\<close> here and the field
  \<^verbatim>\<open>context\<close> is \<open>context_id\<close>.
\<close>

record client =
  fd :: int
  ip :: "string option"
  valid :: int
  cl_idle_cycles :: int
  mem_access :: "addr option"
  mmio_access :: "addr option"
  job :: "addr option"
  context_id :: int

text \<open>
  \<^verbatim>\<open>struct psl\<close>. A heap string is its address with its characters. The array
  \<^verbatim>\<open>client\<close> is a list and \<^verbatim>\<open>max_clients\<close> is its length. \<^verbatim>\<open>_prev\<close> and
  \<^verbatim>\<open>_next\<close> are \<open>prev_psl\<close> and \<open>next_psl\<close>. The field \<^verbatim>\<open>head\<close>, a pointer to
  the registry's head pointer, is \<open>head_ref\<close>, \<open>None\<close> for NULL.
\<close>

type_synonym cstr = "addr \<times> string"

record psl =
  name :: "cstr option"
  host :: "cstr option"
  port :: int
  dbg_id :: byte
  state :: int
  idle_cycles :: int
  afu_event :: "addr option"
  job_h :: "addr option"
  mmio_h :: "addr option"
  cmd_h :: "addr option"
  client :: "client list"
  prev_psl :: "addr option"
  next_psl :: "addr option"
  head_ref :: "addr option"

abbreviation max_clients :: "psl \<Rightarrow> nat" where
  "max_clients p \<equiv> length (client p)"

text \<open>
  The two kinds of records \<^verbatim>\<open>_free\<close> writes through a pointer: a memory access of the
  command subsystem (\<^verbatim>\<open>struct cmd_event\<close>, fields \<^verbatim>\<open>resp\<close> and \<^verbatim>\<open>state\<close>) and
  the job context a client points to (its field \<^verbatim>\<open>state\<close>). Each kind has a store of
  its own, from addresses to records.
\<close>

record cmd_event =
  resp :: int
  mem_state :: int

record heap =
  cmd_events :: "addr \<Rightarrow> cmd_event"
  job_state :: "addr \<Rightarrow> int"

text \<open>
  Calls that leave \<^verbatim>\<open>psl.c\<close>, in the order they are made. \<open>Warn_msg_char\<close> is a
  call of \<^verbatim>\<open>warn_msg\<close> that hands a \<^verbatim>\<open>char\<close> to the format. \<open>Null_deref\<close> is not
  a call: it ends the trace of a thread that reads through a NULL pointer, after which
  the behaviour is undefined and nothing more is recorded.
\<close>

datatype lock = Psl_lock | Job_lock | Mmio_lock | Cmd_lock

datatype event =
    Get_bytes int nat int
  | Put_bytes int "byte list"
  | Close int
  | Free_mem addr
  | Free_str string
  | Free_clients
  | Add_job int "64 word"
  | Debug_context_remove byte int
  | Debug_afu_connect byte
  | Debug_afu_drop byte
  | Mutex_init lock
  | Mutex_lock lock
  | Mutex_unlock lock
  | Mutex_destroy lock
  | Info_msg string
  | Warn_msg string
  | Warn_msg_char string char
  | Error_msg string
  | Perror string
  | Handle_mmio_done int
  | Handle_aerror "addr option"
  | Handle_mem_return "addr option" int
  | Handle_mmio_map int
  | Handle_mmio int bool bool
  | Client_cmd nat
  | Handle_aux2
  | Handle_mmio_ack
  | Handle_response
  | Handle_buffer_write
  | Handle_buffer_read
  | Handle_buffer_data
  | Handle_touch
  | Handle_cmd
  | Handle_interrupt
  | Signal_afu_model
  | Get_afu_events
  | Send_job
  | Send_mmio
  | Ns_delay nat
  | Psl_init_afu_event
  | Job_init
  | Mmio_init
  | Cmd_init
  | Psl_aux1_change
  | Pthread_create
  | Pthread_exit
  | Null_deref

subsection \<open>\<^verbatim>\<open>_attach\<close>\<close>

text \<open>
  The inputs of one call: the 8 bytes \<^verbatim>\<open>get_bytes(client->fd, 8, 10000)\<close> returns
  (\<open>None\<close> for NULL) and whether \<^verbatim>\<open>add_job\<close> returns a job.
\<close>

record attach_in =
  wed_buf :: "byte list option"
  job_added :: bool

definition le64toh :: "byte list \<Rightarrow> 64 word" where
  "le64toh bs = foldr (\<lambda>b acc. ucast b OR push_bit 8 acc) bs 0"

text \<open>The label \<^verbatim>\<open>attach_done\<close>: the one \<^verbatim>\<open>put_bytes\<close> of the function.\<close>

definition attach_done :: "client \<Rightarrow> byte \<Rightarrow> event list" where
  "attach_done c ack = [Put_bytes (fd c) [ack]]"

definition attach :: "config \<Rightarrow> attach_in \<Rightarrow> psl \<Rightarrow> client \<Rightarrow> psl \<times> event list" where
  "attach K ai p c =
     (case wed_buf ai of
        None \<Rightarrow>
          (p, [Get_bytes (fd c) 8 10000, Warn_msg ''Failed to get WED value from client'']
              @ attach_done c (PSLSE_DETACH K))
      | Some buffer \<Rightarrow>
          (let wed = le64toh buffer in
           if job_added ai
           then (p\<lparr>idle_cycles := PSL_IDLE_CYCLES K\<rparr>,
                 [Get_bytes (fd c) 8 10000, Add_job (PSL_JOB_START K) wed]
                 @ attach_done c (PSLSE_ATTACH K))
           else (p, [Get_bytes (fd c) 8 10000, Add_job (PSL_JOB_START K) wed]
                    @ attach_done c (PSLSE_DETACH K))))"

subsection \<open>\<^verbatim>\<open>_free\<close>\<close>

definition free_events :: "psl \<Rightarrow> client \<Rightarrow> event list" where
  "free_events p c =
     [Debug_context_remove (dbg_id p) (context_id c),
      Info_msg ''%s client disconnect from %s context %d'',
      Mutex_lock Psl_lock, Close (fd c)]
     @ (case ip c of None \<Rightarrow> [] | Some s \<Rightarrow> [Free_str s])
     @ [Mutex_unlock Psl_lock]"

definition free :: "config \<Rightarrow> psl \<Rightarrow> client \<Rightarrow> heap \<Rightarrow> client \<times> heap \<times> event list" where
  "free K p c h =
     (let c1 = c\<lparr>fd := - 1, cl_idle_cycles := 0, ip := None\<rparr>;
          h1 = (case mem_access c1 of
                  None \<Rightarrow> h
                | Some a \<Rightarrow>
                    if mem_state (cmd_events h a) \<noteq> MEM_DONE K
                    then h\<lparr>cmd_events := (cmd_events h)
                             (a := (cmd_events h a)\<lparr>resp := PSL_RESPONSE_AERROR K,
                                                     mem_state := MEM_DONE K\<rparr>)\<rparr>
                    else h);
          c2 = c1\<lparr>mem_access := None, mmio_access := None\<rparr>;
          h2 = (case job c2 of
                  None \<Rightarrow> h1
                | Some j \<Rightarrow> h1\<lparr>job_state := (job_state h1)(j := PSLSE_DONE K)\<rparr>)
      in (c2\<lparr>valid := 0\<rparr>, h2, free_events p c))"

subsection \<open>\<^verbatim>\<open>_handle_client\<close>\<close>

text \<open>
  The inputs of one pass over one client: what \<^verbatim>\<open>handle_mmio_done\<close> returns, whether
  \<^verbatim>\<open>poll\<close> reports the socket ready, the byte \<^verbatim>\<open>get_bytes(client->fd, 1, 1)\<close>
  returns (\<open>None\<close> for NULL), the inputs of \<^verbatim>\<open>_attach\<close>, what the last
  \<^verbatim>\<open>handle_mmio\<close> call returns, and what \<^verbatim>\<open>client_cmd\<close> answers in the loop.
\<close>

record client_in =
  mmio_done :: "addr option"
  poll_ready :: bool
  hdr :: "byte option"
  att :: attach_in
  mmio_new :: "addr option"
  cmd_pending :: bool

text \<open>Lines 124 to 127: an outstanding MMIO access restarts the countdown.\<close>

definition handle_mmio_done_step :: "config \<Rightarrow> client_in \<Rightarrow> client \<Rightarrow> client \<times> event list" where
  "handle_mmio_done_step K ci c =
     (if mmio_access c \<noteq> None
      then (c\<lparr>cl_idle_cycles := PSL_IDLE_CYCLES K, mmio_access := mmio_done ci\<rparr>,
            [Handle_mmio_done (context_id c)])
      else (c, []))"

text \<open>
  Lines 140 to 169: the chain of \<^verbatim>\<open>if\<close>s over the byte read, each tried in turn
  whatever the ones before it did. \<open>cmd\<close> is the memory access the client held when
  the pass began (line 130). One definition for each \<^verbatim>\<open>if\<close> up to
  \<^verbatim>\<open>PSLSE_MMIO_MAP\<close>, one for the four that call \<^verbatim>\<open>handle_mmio\<close> and set the
  local \<^verbatim>\<open>mmio\<close>, and \<open>dispatch\<close> for the chain.
\<close>

definition on_detach :: "config \<Rightarrow> byte \<Rightarrow> client \<Rightarrow> client" where
  "on_detach K b c =
     (if b = PSLSE_DETACH K
      then c\<lparr>cl_idle_cycles := PSL_IDLE_CYCLES K, valid := - 1\<rparr> else c)"

definition on_attach ::
  "config \<Rightarrow> client_in \<Rightarrow> byte \<Rightarrow> psl \<Rightarrow> client \<Rightarrow> psl \<times> event list" where
  "on_attach K ci b p c = (if b = PSLSE_ATTACH K then attach K (att ci) p c else (p, []))"

definition on_mem_failure ::
  "config \<Rightarrow> byte \<Rightarrow> addr option \<Rightarrow> client \<Rightarrow> client \<times> event list" where
  "on_mem_failure K b cmd c =
     (if b = PSLSE_MEM_FAILURE K
      then (c\<lparr>mem_access := None\<rparr>, [Handle_aerror cmd]) else (c, []))"

definition on_mem_success ::
  "config \<Rightarrow> byte \<Rightarrow> addr option \<Rightarrow> client \<Rightarrow> client \<times> event list" where
  "on_mem_success K b cmd c =
     (if b = PSLSE_MEM_SUCCESS K
      then (c\<lparr>mem_access := None\<rparr>, [Handle_mem_return cmd (fd c)]) else (c, []))"

definition on_mmio_map :: "config \<Rightarrow> byte \<Rightarrow> client \<Rightarrow> event list" where
  "on_mmio_map K b c =
     (if b = PSLSE_MMIO_MAP K then [Handle_mmio_map (context_id c)] else [])"

definition on_mmio ::
  "config \<Rightarrow> client_in \<Rightarrow> byte \<Rightarrow> client \<Rightarrow> addr option \<times> event list" where
  "on_mmio K ci b c =
     (let (m1, e1) = (if b = PSLSE_MMIO_WRITE64 K
                      then (mmio_new ci, [Handle_mmio (context_id c) False True])
                      else (None, []));
          (m2, e2) = (if b = PSLSE_MMIO_READ64 K
                      then (mmio_new ci, [Handle_mmio (context_id c) True True])
                      else (m1, []));
          (m3, e3) = (if b = PSLSE_MMIO_WRITE32 K
                      then (mmio_new ci, [Handle_mmio (context_id c) False False])
                      else (m2, []));
          (m4, e4) = (if b = PSLSE_MMIO_READ32 K
                      then (mmio_new ci, [Handle_mmio (context_id c) True False])
                      else (m3, []))
      in (m4, e1 @ e2 @ e3 @ e4))"

definition dispatch ::
  "config \<Rightarrow> client_in \<Rightarrow> byte \<Rightarrow> addr option \<Rightarrow> psl \<Rightarrow> client \<Rightarrow> psl \<times> client \<times> event list" where
  "dispatch K ci b cmd p c =
     (let c1 = on_detach K b c;
          (p2, e2) = on_attach K ci b p c1;
          (c3, e3) = on_mem_failure K b cmd c1;
          (c4, e4) = on_mem_success K b cmd c3;
          e5 = on_mmio_map K b c4;
          (mmio, e6) = on_mmio K ci b c4;
          c5 = (case mmio of None \<Rightarrow> c4 | Some m \<Rightarrow> c4\<lparr>mmio_access := Some m\<rparr>)
      in (p2, c5\<lparr>cl_idle_cycles := PSL_IDLE_CYCLES K\<rparr>, e2 @ e3 @ e4 @ e5 @ e6))"

definition handle_client ::
  "config \<Rightarrow> client_in \<Rightarrow> psl \<Rightarrow> client \<Rightarrow> heap \<Rightarrow> psl \<times> client \<times> heap \<times> event list" where
  "handle_client K ci p c h =
     (let (c1, e1) = handle_mmio_done_step K ci c;
          cmd = mem_access c1
      in if poll_ready ci
         then (case hdr ci of
                 None \<Rightarrow>
                   (let (c2, h2, e2) = free K p c1 h
                    in (p, c2, h2, e1 @ [Get_bytes (fd c1) 1 1] @ e2))
               | Some b \<Rightarrow>
                   (let (p2, c2, e2) = dispatch K ci b cmd p c1
                    in (p2, c2, h, e1 @ [Get_bytes (fd c1) 1 1] @ e2)))
         else (p, c1, h, e1))"

subsection \<open>\<^verbatim>\<open>_psl_loop\<close>\<close>

text \<open>
  Lines 227 to 241, the body of the \<^verbatim>\<open>for\<close> loop for the client of slot \<open>i\<close>. The
  acknowledgement \<^verbatim>\<open>ack\<close> of the loop is \<^verbatim>\<open>PSLSE_DETACH\<close> throughout. The countdown
  is a C \<^verbatim>\<open>int\<close>; it is only decremented when it is not zero, and it is never negative
  (shown below), so the decrement never wraps.
\<close>

definition client_iter ::
  "config \<Rightarrow> client_in \<Rightarrow> nat \<Rightarrow> psl \<Rightarrow> client \<Rightarrow> heap \<Rightarrow> psl \<times> client \<times> heap \<times> event list" where
  "client_iter K ci i p c h =
     (if valid c = 0 then (p, c, h, [])
      else
        (let (p1, c1, h1, e1) = handle_client K ci p c h
         in if valid c1 < 0 \<and> cl_idle_cycles c1 = 0
            then
              (let (c2, h2, e2) = free K p1 c1 h1
               in (p1, c2, h2,
                   e1 @ [Mutex_lock Psl_lock, Put_bytes (fd c1) [PSLSE_DETACH K],
                         Mutex_unlock Psl_lock] @ e2))
            else
              (let c2 = (if cl_idle_cycles c1 \<noteq> 0
                         then c1\<lparr>cl_idle_cycles := cl_idle_cycles c1 - 1\<rparr> else c1);
                   c3 = (if cmd_pending ci
                         then c2\<lparr>cl_idle_cycles := PSL_IDLE_CYCLES K\<rparr> else c2)
               in (p1, c3, h1, e1 @ [Client_cmd i]))))"

text \<open>
  The \<^verbatim>\<open>for\<close> loop over the slots, from slot \<open>i\<close> on. No callee reads or writes the
  array through \<^verbatim>\<open>psl\<close>, so the slots are threaded beside the session record and
  stored back by \<open>psl_iter\<close>.
\<close>

fun clients_loop ::
  "config \<Rightarrow> (nat \<Rightarrow> client_in) \<Rightarrow> nat \<Rightarrow> psl \<Rightarrow> heap \<Rightarrow> client list
     \<Rightarrow> psl \<times> client list \<times> heap \<times> event list" where
  "clients_loop K cin i p h [] = (p, [], h, [])"
| "clients_loop K cin i p h (c # cs) =
     (let (p1, c1, h1, e1) = client_iter K (cin i) i p c h;
          (p2, cs2, h2, e2) = clients_loop K cin (Suc i) p1 h1 cs
      in (p2, c1 # cs2, h2, e1 @ e2))"

text \<open>\<^verbatim>\<open>_handle_afu\<close>: only calls into the subsystems.\<close>

definition handle_afu :: "psl \<Rightarrow> event list" where
  "handle_afu p =
     [Handle_aux2, Handle_mmio_ack]
     @ (if cmd_h p \<noteq> None
        then [Handle_response, Handle_buffer_write, Handle_buffer_read, Handle_buffer_data,
              Handle_touch, Handle_cmd, Handle_interrupt]
        else [])"

text \<open>
  The inputs of one iteration of the \<^verbatim>\<open>while\<close> loop: the value of \<^verbatim>\<open>psl->state\<close>
  the loop reads at its top (the job subsystem and the code that stops a session write
  it), what \<^verbatim>\<open>psl_get_afu_events\<close> returns, whether \<^verbatim>\<open>psl->job->job\<close> and
  \<^verbatim>\<open>psl->mmio->list\<close> are NULL at line 214, and the inputs of each slot's pass.
\<close>

record iter_in =
  cur_state :: int
  afu_events :: int
  job_idle :: bool
  mmio_idle :: bool
  clients_in :: "nat \<Rightarrow> client_in"

text \<open>
  Lines 186 to 192, the top of an iteration: any state but IDLE restarts the session's
  countdown. \<open>stopped\<close> is the local flag of the loop.
\<close>

definition loop_top :: "config \<Rightarrow> psl \<Rightarrow> bool \<Rightarrow> psl \<times> bool \<times> event list" where
  "loop_top K p stopped =
     (if state p \<noteq> PSLSE_IDLE K
      then (p\<lparr>idle_cycles := PSL_IDLE_CYCLES K\<rparr>, False,
            (if stopped then [Info_msg ''Clocking %s''] else []))
      else (p, stopped, []))"

text \<open>
  Lines 186 to 223, the clocking half of an iteration. The first component of the result
  says whether the loop is left by \<^verbatim>\<open>break\<close>. The session's countdown is a C
  \<^verbatim>\<open>int\<close> that is decremented only when it is not zero.
\<close>

definition clock_step ::
  "config \<Rightarrow> iter_in \<Rightarrow> psl \<Rightarrow> bool \<Rightarrow> bool \<times> psl \<times> bool \<times> event list" where
  "clock_step K x p stopped =
     (let (p1, stopped1, e1) = loop_top K p stopped
      in if idle_cycles p1 \<noteq> 0
         then
           (let e2 = [Mutex_lock Psl_lock, Signal_afu_model, Get_afu_events,
                      Mutex_unlock Psl_lock]
            in if afu_events x < 0 then (True, p1, stopped1, e1 @ e2)
               else
                 (let e3 = (if afu_events x > 0 then handle_afu p1 else []);
                      p2 = (if job_idle x \<and> mmio_idle x
                            then p1\<lparr>idle_cycles := idle_cycles p1 - 1\<rparr> else p1)
                  in (False, p2, stopped1, e1 @ e2 @ e3 @ [Send_job, Send_mmio])))
         else
           (False, p1, True,
            e1 @ (if \<not> stopped1 then [Info_msg ''Stopping clocks to %s''] else [])
               @ [Ns_delay 1000000]))"

record loop_state =
  the_psl :: psl
  the_heap :: heap
  stopped :: bool

text \<open>One iteration of the \<^verbatim>\<open>while\<close> loop, entered with \<^verbatim>\<open>psl->state\<close> not DONE.\<close>

definition psl_iter :: "config \<Rightarrow> iter_in \<Rightarrow> loop_state \<Rightarrow> bool \<times> loop_state \<times> event list" where
  "psl_iter K x s =
     (let p0 = (the_psl s)\<lparr>state := cur_state x\<rparr>;
          (brk, p1, stopped1, e1) = clock_step K x p0 (stopped s)
      in if brk then (True, s\<lparr>the_psl := p1, stopped := stopped1\<rparr>, e1)
         else
           (let (p2, cs2, h2, e2) =
                  clients_loop K (clients_in x) 0 p1 (the_heap s) (client p1)
            in (False,
                \<lparr>the_psl = p2\<lparr>client := cs2\<rparr>, the_heap = h2, stopped = stopped1\<rparr>,
                e1 @ e2)))"

text \<open>
  Lines 245 to 285, after the loop: the sockets of the slots still in use are closed and
  the session's memory is released (the client table when there is one: the empty list
  stands for the NULL table). Line 283 then reads \<^verbatim>\<open>*(psl->head)\<close>: with a NULL
  \<^verbatim>\<open>psl->head\<close> the thread ends there and never reaches \<^verbatim>\<open>pthread_exit\<close>. The
  registry links are patched by \<open>unlink_psl\<close> below.
\<close>

definition opt_free :: "addr option \<Rightarrow> event list" where
  "opt_free x = (case x of None \<Rightarrow> [] | Some a \<Rightarrow> [Free_mem a])"

definition str_free :: "cstr option \<Rightarrow> event list" where
  "str_free x = (case x of None \<Rightarrow> [] | Some (a, s) \<Rightarrow> [Free_mem a])"

definition teardown :: "psl \<Rightarrow> event list" where
  "teardown p =
     map (\<lambda>c. Close (fd c)) (filter (\<lambda>c. valid c \<noteq> 0) (client p))
     @ [Debug_afu_drop (dbg_id p), Info_msg ''Disconnected %s @ %s:%d\<newline>'',
        Mutex_destroy Psl_lock]
     @ (if client p \<noteq> [] then [Free_clients] else [])
     @ (case cmd_h p of None \<Rightarrow> [] | Some a \<Rightarrow> [Mutex_destroy Cmd_lock, Free_mem a])
     @ (case job_h p of None \<Rightarrow> [] | Some a \<Rightarrow> [Mutex_destroy Job_lock, Free_mem a])
     @ (case mmio_h p of None \<Rightarrow> [] | Some a \<Rightarrow> [Mutex_destroy Mmio_lock, Free_mem a])
     @ str_free (host p) @ opt_free (afu_event p) @ str_free (name p)
     @ (case head_ref p of None \<Rightarrow> [Null_deref] | Some cell \<Rightarrow> [Pthread_exit])"

text \<open>
  The \<^verbatim>\<open>while\<close> loop over the inputs of its iterations. The loop serves its clients
  until the session is stopped, so the model runs it for as many iterations as there are
  inputs; the first component of the result says whether the loop was left within them.
\<close>

fun psl_loop :: "config \<Rightarrow> iter_in list \<Rightarrow> loop_state \<Rightarrow> bool \<times> loop_state \<times> event list" where
  "psl_loop K [] s = (False, s, [])"
| "psl_loop K (x # xs) s =
     (if cur_state x = PSLSE_DONE K
      then (True, s\<lparr>the_psl := (the_psl s)\<lparr>state := cur_state x\<rparr>\<rparr>, teardown (the_psl s))
      else
        (let (brk, s1, e1) = psl_iter K x s
         in if brk then (True, s1, e1 @ teardown (the_psl s1))
            else (let (ex, s2, e2) = psl_loop K xs s1 in (ex, s2, e1 @ e2))))"

subsection \<open>\<^verbatim>\<open>psl_init\<close>\<close>

text \<open>
  The session registry: the pointer \<^verbatim>\<open>*head\<close> and the session records by address.
\<close>

record registry =
  head :: "addr option"
  sessions :: "addr \<Rightarrow> psl"

text \<open>
  Lines 261 to 264 and 283 to 284, for the session at \<open>a\<close>: the neighbours are linked
  to each other, and the registry's head moves on when it was this session. The result
  is \<open>None\<close> when \<^verbatim>\<open>psl->head\<close> is NULL, which line 283 reads through; a
  \<^verbatim>\<open>psl->head\<close> that is not NULL is taken to point to the registry's head pointer.
\<close>

definition unlink_psl :: "addr \<Rightarrow> registry \<Rightarrow> registry option" where
  "unlink_psl a r =
     (let p = sessions r a;
          s1 = (case prev_psl p of
                  None \<Rightarrow> sessions r
                | Some q \<Rightarrow> (sessions r)(q := (sessions r q)\<lparr>next_psl := next_psl p\<rparr>));
          s2 = (case next_psl p of
                  None \<Rightarrow> s1
                | Some n \<Rightarrow> s1(n := (s1 n)\<lparr>prev_psl := prev_psl p\<rparr>))
      in case head_ref p of
           None \<Rightarrow> None
         | Some cell \<Rightarrow>
             Some \<lparr>head = (if head r = Some a then next_psl p else head r), sessions = s2\<rparr>)"

text \<open>
  The inputs of one call: what each \<^verbatim>\<open>malloc\<close> returns (\<open>None\<close> for NULL), the
  result of \<^verbatim>\<open>psl_init_afu_event\<close>, the records \<^verbatim>\<open>job_init\<close>, \<^verbatim>\<open>mmio_init\<close> and
  \<^verbatim>\<open>cmd_init\<close> return, and the results of \<^verbatim>\<open>psl_aux1_change\<close> and
  \<^verbatim>\<open>pthread_create\<close>.
\<close>

record init_in =
  malloc_psl :: "addr option"
  malloc_name :: "addr option"
  malloc_host :: "addr option"
  malloc_afu_event :: "addr option"
  afu_connect :: int
  job_init :: "addr option"
  mmio_init :: "addr option"
  cmd_init :: "addr option"
  aux1_change :: int
  pthread_create :: int

text \<open>
  How a call of \<^verbatim>\<open>psl_init\<close> ends: it returns an \<^verbatim>\<open>int\<close>, or its behaviour is
  undefined from some call on.
\<close>

datatype outcome = Returned int | Undefined

text \<open>The record after \<^verbatim>\<open>memset(psl, 0, sizeof(struct psl))\<close>.\<close>

definition zero_psl :: psl where
  "zero_psl =
     \<lparr>name = None, host = None, port = 0, dbg_id = 0, state = 0, idle_cycles = 0,
      afu_event = None, job_h = None, mmio_h = None, cmd_h = None, client = [],
      prev_psl = None, next_psl = None, head_ref = None\<rparr>"

text \<open>
  The three tests of lines 300 to 311 on the name. A \<^verbatim>\<open>char *\<close> argument is the list
  of its characters before the terminating NUL, so \<^verbatim>\<open>strlen\<close> is \<open>length\<close>. The
  tests are tried in the order of the \<^verbatim>\<open>||\<close>: \<open>ident ! 4\<close> is read only when the name
  has 6 characters. A character is compared by its code; whether \<^verbatim>\<open>char\<close> is signed
  makes no difference to a test that accepts \<^verbatim>\<open>'0'\<close> to \<^verbatim>\<open>'3'\<close> only.
\<close>

definition bad_name :: "string \<Rightarrow> bool" where
  "bad_name ident =
     (if length ident \<noteq> 6 then True
      else if take 3 ident \<noteq> ''afu'' then True
      else ident ! 4 \<noteq> CHR ''.'')"

definition bad_digit :: "char \<Rightarrow> bool" where
  "bad_digit c =
     ((of_char c :: nat) < of_char CHR ''0'' \<or> (of_char c :: nat) > of_char CHR ''3'')"

definition make_dbg_id :: "string \<Rightarrow> byte" where
  "make_dbg_id ident =
     push_bit 4 (of_char (ident ! 3) - of_char CHR ''0'') OR (of_char (ident ! 5) - of_char CHR ''0'')"

text \<open>The labels \<^verbatim>\<open>init_fail\<close> and \<^verbatim>\<open>init_fail_lock\<close>, for the record at \<open>a\<close>.\<close>

definition init_fail :: "psl \<Rightarrow> addr \<Rightarrow> event list" where
  "init_fail p a =
     opt_free (afu_event p) @ str_free (host p) @ str_free (name p) @ [Free_mem a]"

definition init_fail_lock :: "psl \<Rightarrow> addr \<Rightarrow> event list" where
  "init_fail_lock p a = Mutex_destroy Psl_lock # init_fail p a"

text \<open>Lines 386 to 390: the new session is put in front of the registry.\<close>

definition add_psl :: "addr \<Rightarrow> psl \<Rightarrow> registry \<Rightarrow> registry" where
  "add_psl a p r =
     (let s1 = (sessions r)(a := p\<lparr>next_psl := head r\<rparr>);
          s2 = (case head r of
                  None \<Rightarrow> s1
                | Some h \<Rightarrow> s1(h := (s1 h)\<lparr>prev_psl := Some a\<rparr>))
      in \<lparr>head = Some a, sessions = s2\<rparr>)"

text \<open>Lines 352 to 392, from \<^verbatim>\<open>job_init\<close> on, with the events so far.\<close>

definition init_subsystems ::
  "config \<Rightarrow> init_in \<Rightarrow> addr \<Rightarrow> psl \<Rightarrow> registry \<Rightarrow> event list \<Rightarrow> outcome \<times> registry \<times> event list" where
  "init_subsystems K ii a p r es =
     (case job_init ii of
        None \<Rightarrow> (Returned (- 1), r, es @ [Job_init, Perror ''job_init''] @ init_fail_lock p a)
      | Some j \<Rightarrow>
          (let p1 = p\<lparr>job_h := Some j\<rparr> in
           case mmio_init ii of
             None \<Rightarrow>
               (Returned (- 1), r, es @ [Job_init, Mmio_init, Perror ''mmio_init'']
                        @ init_fail_lock p1 a)
           | Some m \<Rightarrow>
               (let p2 = p1\<lparr>mmio_h := Some m\<rparr> in
                case cmd_init ii of
                  None \<Rightarrow>
                    (Returned (- 1), r, es @ [Job_init, Mmio_init, Cmd_init, Perror ''cmd_init'']
                             @ init_fail_lock p2 a)
                | Some c \<Rightarrow>
                    (let p3 = p2\<lparr>cmd_h := Some c\<rparr>;
                         es1 = es @ [Job_init, Mmio_init, Cmd_init, Psl_aux1_change]
                     in if aux1_change ii \<noteq> PSL_SUCCESS K
                        then (Returned (- 1), r, es1 @ [Warn_msg ''Unable to set credits'']
                                      @ init_fail_lock p3 a)
                        else if pthread_create ii \<noteq> 0
                        then (Returned (- 1), r, es1 @ [Pthread_create, Perror ''pthread_create'']
                                      @ init_fail_lock p3 a)
                        else (Returned 0, add_psl a p3 r, es1 @ [Pthread_create])))))"

text \<open>
  \<^verbatim>\<open>psl_init(head, parms, id, host, port, dbg_fp)\<close>: the result, the registry and
  the events. The argument \<^verbatim>\<open>id\<close> is \<open>ident\<close>. \<^verbatim>\<open>parms\<close> and \<^verbatim>\<open>dbg_fp\<close> are only
  handed on to the subsystems and the debug sink, and are left out. The function never
  assigns \<^verbatim>\<open>psl->head\<close>, which stays NULL from the \<^verbatim>\<open>memset\<close>.

  \<^verbatim>\<open>warn_msg\<close> is a printf-like sink (line 344 gives it two strings and an
  \<^verbatim>\<open>int\<close> for \<^verbatim>\<open>%s @ %s:%d\<close>). Lines 305 and 309 give it the \<^verbatim>\<open>char\<close>
  \<^verbatim>\<open>id[3]\<close> for a \<^verbatim>\<open>%s\<close> conversion, which takes a pointer to a string: the
  behaviour of the call is undefined, so on these two paths the model ends with
  \<open>Undefined\<close> at the call and says nothing of what follows it. The registry given
  back there is only the one the call was entered with.
\<close>

definition psl_init ::
  "config \<Rightarrow> init_in \<Rightarrow> registry \<Rightarrow> string \<Rightarrow> string \<Rightarrow> int \<Rightarrow> outcome \<times> registry \<times> event list" where
  "psl_init K ii r ident hostname portno =
     (case malloc_psl ii of
        None \<Rightarrow> (Returned (- 1), r, [Perror ''malloc'', Error_msg ''Unable to allocation memory for psl''])
      | Some a \<Rightarrow>
          if bad_name ident
          then (Returned (- 1), r, Warn_msg ''Invalid afu name: %s'' # init_fail zero_psl a)
          else if bad_digit (ident ! 3)
          then (Undefined, r, [Warn_msg_char ''Invalid afu major: %s'' (ident ! 3)])
          else if bad_digit (ident ! 5)
          then (Undefined, r, [Warn_msg_char ''Invalid afu minor: %s'' (ident ! 3)])
          else
            (let p1 = zero_psl\<lparr>dbg_id := make_dbg_id ident\<rparr> in
             case malloc_name ii of
               None \<Rightarrow>
                 (Returned (- 1), r, [Perror ''malloc'',
                           Error_msg ''Unable to allocation memory for psl->name'']
                          @ init_fail p1 a)
             | Some n \<Rightarrow>
                 (let p2 = p1\<lparr>name := Some (n, ident)\<rparr> in
                  case malloc_host ii of
                    None \<Rightarrow>
                      (Returned (- 1), r, [Perror ''malloc'',
                                Error_msg ''Unable to allocation memory for psl->host'']
                               @ init_fail p2 a)
                  | Some hs \<Rightarrow>
                      (let p3 = p2\<lparr>host := Some (hs, hostname), port := portno,
                                   client := [], idle_cycles := PSL_IDLE_CYCLES K\<rparr> in
                       case malloc_afu_event ii of
                         None \<Rightarrow>
                           (Returned (- 1), r, [Mutex_init Psl_lock, Perror ''malloc'']
                                    @ init_fail_lock p3 a)
                       | Some ev \<Rightarrow>
                           (let p4 = p3\<lparr>afu_event := Some ev\<rparr>;
                                es = [Mutex_init Psl_lock,
                                      Info_msg ''Attempting to connect AFU: %s @ %s:%d'',
                                      Psl_init_afu_event]
                            in if afu_connect ii \<noteq> PSL_SUCCESS K
                               then (Returned (- 1), r, es @ [Warn_msg ''Unable to connect AFU: %s @ %s:%d'']
                                             @ init_fail_lock p4 a)
                               else init_subsystems K ii a p4 r
                                      (es @ [Debug_afu_connect (dbg_id p4)]))))))"

subsection \<open>Notions the properties are stated with\<close>

text \<open>The acknowledgement writes among the events of a call.\<close>

fun is_put :: "event \<Rightarrow> bool" where
  "is_put (Put_bytes f bs) = True"
| "is_put e = False"

text \<open>The dispatches to the command and MMIO subsystems among the events of a call.\<close>

fun is_dispatch :: "event \<Rightarrow> bool" where
  "is_dispatch (Handle_aerror m) = True"
| "is_dispatch (Handle_mem_return m f) = True"
| "is_dispatch (Handle_mmio_map x) = True"
| "is_dispatch (Handle_mmio x rnw dw) = True"
| "is_dispatch e = False"



text \<open>The names \<^verbatim>\<open>afuM.N\<close> with \<^verbatim>\<open>M\<close> and \<^verbatim>\<open>N\<close> from 0 to 3.\<close>

definition afu_names :: "string list" where
  "afu_names = concat (map (\<lambda>a. map (\<lambda>b. ''afu'' @ [a, CHR ''.'', b]) ''0123'') ''0123'')"

text \<open>The name passes the three tests of \<^verbatim>\<open>psl_init\<close>.\<close>

definition name_accepted :: "string \<Rightarrow> bool" where
  "name_accepted ident =
     (\<not> bad_name ident \<and> \<not> bad_digit (ident ! 3) \<and> \<not> bad_digit (ident ! 5))"

text \<open>No countdown of the session or of a slot is negative.\<close>

definition nonneg_idle :: "psl \<Rightarrow> bool" where
  "nonneg_idle p =
     (0 \<le> idle_cycles p \<and> list_all (\<lambda>c. 0 \<le> cl_idle_cycles c) (client p))"

text \<open>
  The input of a pass that runs a successful attach when its slot is in use: a byte is
  read, it is ATTACH, the 8 bytes are read and \<^verbatim>\<open>add_job\<close> returns a job.
\<close>

definition attaches :: "config \<Rightarrow> client_in \<Rightarrow> bool" where
  "attaches K ci =
     (poll_ready ci \<and> hdr ci = Some (PSLSE_ATTACH K) \<and> wed_buf (att ci) \<noteq> None
      \<and> job_added (att ci))"

text \<open>
  An iteration of a session of \<open>n\<close> slots that finds the session IDLE, the transport
  alive and the job and MMIO queues empty, and in which no pass runs a successful attach.
  The clients may send anything else.
\<close>

definition idle_input :: "config \<Rightarrow> nat \<Rightarrow> iter_in \<Rightarrow> bool" where
  "idle_input K n x =
     (cur_state x = PSLSE_IDLE K \<and> 0 \<le> afu_events x \<and> job_idle x \<and> mmio_idle x
      \<and> list_all (\<lambda>i. \<not> attaches K (clients_in x i)) [0..<n])"

subsection \<open>Concrete values\<close>

text \<open>
  A configuration with nine different command bytes and a countdown of 20 cycles, an
  empty heap, a connected client and inputs, for evaluating the functions.
\<close>

definition example_config :: config where
  "example_config =
     \<lparr>PSL_IDLE_CYCLES = 20, PSLSE_DETACH = 1, PSLSE_ATTACH = 2, PSLSE_MEM_FAILURE = 3,
      PSLSE_MEM_SUCCESS = 4, PSLSE_MMIO_MAP = 5, PSLSE_MMIO_WRITE64 = 6,
      PSLSE_MMIO_READ64 = 7, PSLSE_MMIO_WRITE32 = 8, PSLSE_MMIO_READ32 = 9,
      PSLSE_IDLE = 0, PSLSE_DONE = 5, MEM_DONE = 9, PSL_RESPONSE_AERROR = 1,
      PSL_JOB_START = 144, PSL_SUCCESS = 0\<rparr>"

definition example_heap :: heap where
  "example_heap =
     \<lparr>cmd_events = (\<lambda>a. \<lparr>resp = 0, mem_state = 0\<rparr>), job_state = (\<lambda>a. 0)\<rparr>"

definition example_client :: client where
  "example_client =
     \<lparr>fd = 7, ip = Some ''10.0.0.2'', valid = 1, cl_idle_cycles = 0, mem_access = None,
      mmio_access = None, job = None, context_id = 0\<rparr>"

definition freed_client :: client where
  "freed_client =
     \<lparr>fd = - 1, ip = None, valid = 0, cl_idle_cycles = 0, mem_access = None,
      mmio_access = None, job = None, context_id = 0\<rparr>"

definition silent :: client_in where
  "silent =
     \<lparr>mmio_done = None, poll_ready = False, hdr = None,
      att = \<lparr>wed_buf = None, job_added = False\<rparr>, mmio_new = None, cmd_pending = False\<rparr>"

definition sends :: "byte \<Rightarrow> client_in" where
  "sends b = silent\<lparr>poll_ready := True, hdr := Some b\<rparr>"

definition hangup :: client_in where
  "hangup = silent\<lparr>poll_ready := True, hdr := None\<rparr>"

definition example_psl :: psl where
  "example_psl =
     zero_psl\<lparr>idle_cycles := 0, job_h := Some 500, mmio_h := Some 600, cmd_h := Some 700,
       client := [example_client]\<rparr>"

definition idle_iter :: "client_in \<Rightarrow> iter_in" where
  "idle_iter ci =
     \<lparr>cur_state = 0, afu_events = 0, job_idle = True, mmio_idle = True,
      clients_in = (\<lambda>i. ci)\<rparr>"

definition example_registry :: registry where
  "example_registry = \<lparr>head = None, sessions = (\<lambda>a. zero_psl)\<rparr>"

definition example_init :: init_in where
  "example_init =
     \<lparr>malloc_psl = Some 100, malloc_name = Some 200, malloc_host = Some 300,
      malloc_afu_event = Some 400, afu_connect = 0, job_init = Some 500,
      mmio_init = Some 600, cmd_init = Some 700, aux1_change = 0, pthread_create = 0\<rparr>"

definition clocking_state :: loop_state where
  "clocking_state =
     \<lparr>the_psl = example_psl\<lparr>idle_cycles := 1\<rparr>, the_heap = example_heap, stopped = False\<rparr>"

definition gated_state :: loop_state where
  "gated_state =
     \<lparr>the_psl = example_psl\<lparr>idle_cycles := 0,
        client := [example_client\<lparr>cl_idle_cycles := 19\<rparr>]\<rparr>,
      the_heap = example_heap, stopped = False\<rparr>"

definition fresh_state :: loop_state where
  "fresh_state =
     \<lparr>the_psl = example_psl\<lparr>idle_cycles := 20\<rparr>, the_heap = example_heap, stopped = False\<rparr>"

definition attaching_input :: client_in where
  "attaching_input =
     (sends 2)\<lparr>att := \<lparr>wed_buf = Some [1, 0, 0, 0, 0, 0, 0, 0], job_added = True\<rparr>\<rparr>"

section \<open>Properties\<close>

subsection \<open>Client release\<close>

lemma free_client:
  "fst (free K p c h) =
     c\<lparr>fd := - 1, cl_idle_cycles := 0, ip := None, mem_access := None,
       mmio_access := None, valid := 0\<rparr>"
  by (simp add: free_def Let_def)

lemma free_heap:
  "fst (snd (free K p c h)) =
     (let h1 = (case mem_access c of
                  None \<Rightarrow> h
                | Some a \<Rightarrow>
                    if mem_state (cmd_events h a) \<noteq> MEM_DONE K
                    then h\<lparr>cmd_events := (cmd_events h)
                             (a := (cmd_events h a)\<lparr>resp := PSL_RESPONSE_AERROR K,
                                                     mem_state := MEM_DONE K\<rparr>)\<rparr>
                    else h)
      in case job c of
           None \<Rightarrow> h1
         | Some j \<Rightarrow> h1\<lparr>job_state := (job_state h1)(j := PSLSE_DONE K)\<rparr>)"
  by (simp add: free_def Let_def split: option.splits)

lemma free_trace: "snd (snd (free K p c h)) = free_events p c"
  by (simp add: free_def Let_def)

text \<open>
  Claim C10. When the client's pointer to a job context is not NULL, \<^verbatim>\<open>_free\<close> sets
  the state of that job context to \<^verbatim>\<open>PSLSE_DONE\<close>, besides closing the socket,
  dropping the address string, clearing both in-flight references and marking the slot
  free.
\<close>

theorem free_job_done:
  assumes "job c = Some j"
  shows "job_state (fst (snd (free K p c h))) j = PSLSE_DONE K
    \<and> fst (free K p c h) =
         c\<lparr>fd := - 1, cl_idle_cycles := 0, ip := None, mem_access := None,
           mmio_access := None, valid := 0\<rparr>
    \<and> Close (fd c) \<in> set (snd (snd (free K p c h)))"
  using assms
  by (simp add: free_client free_heap free_trace free_events_def Let_def
      split: option.splits)

theorem free_job_done_witness:
  "job (example_client\<lparr>job := Some 3\<rparr>) = Some 3
   \<and> job_state (fst (snd (free example_config zero_psl (example_client\<lparr>job := Some 3\<rparr>)
        example_heap))) 3 = 5
   \<and> job_state example_heap 3 = 0"
  using free_job_done [of "example_client\<lparr>job := Some 3\<rparr>" 3 example_config zero_psl
      example_heap]
  by (simp add: example_client_def example_config_def example_heap_def)

text \<open>
  Claim C6, as stated, fails: a free slot with a closed socket, no address string and no
  in-flight access can hold a countdown that is not zero, and \<^verbatim>\<open>_free\<close> sets that
  countdown to zero, so the record changes. The loop itself leaves such a slot: when a
  client hangs up while the command subsystem still has a command of its, the pass
  releases the slot and line 241 then restarts its countdown.
\<close>

theorem free_not_noop_counterexample:
  "fst (snd (client_iter example_config (hangup\<lparr>cmd_pending := True\<rparr>) 0 example_psl
      example_client example_heap)) = freed_client\<lparr>cl_idle_cycles := 20\<rparr>
   \<and> valid (freed_client\<lparr>cl_idle_cycles := 20\<rparr>) = 0
   \<and> fd (freed_client\<lparr>cl_idle_cycles := 20\<rparr>) = - 1
   \<and> ip (freed_client\<lparr>cl_idle_cycles := 20\<rparr>) = None
   \<and> mem_access (freed_client\<lparr>cl_idle_cycles := 20\<rparr>) = None
   \<and> mmio_access (freed_client\<lparr>cl_idle_cycles := 20\<rparr>) = None
   \<and> fst (free example_config example_psl (freed_client\<lparr>cl_idle_cycles := 20\<rparr>)
        example_heap) = freed_client
   \<and> freed_client \<noteq> freed_client\<lparr>cl_idle_cycles := 20\<rparr>"
  by (simp add: client_iter_def handle_client_def handle_mmio_done_step_def free_def Let_def
      hangup_def silent_def example_client_def example_config_def freed_client_def)

text \<open>
  Claim C6, amended. Release is idempotent: a second \<^verbatim>\<open>_free\<close> leaves the client
  record and the heap as the first one left them. Applied to a slot that is free, with
  a closed socket, no address string, no in-flight access and a countdown of zero, it
  leaves the record unchanged. Applied to a client whose in-flight memory access is not
  in state \<^verbatim>\<open>MEM_DONE\<close>, it sets that access's response to
  \<^verbatim>\<open>PSL_RESPONSE_AERROR\<close> and its state to \<^verbatim>\<open>MEM_DONE\<close>, and clears the
  reference.
\<close>

theorem free_idempotent:
  "(fst (free K p' (fst (free K p c h)) (fst (snd (free K p c h)))) = fst (free K p c h)
    \<and> fst (snd (free K p' (fst (free K p c h)) (fst (snd (free K p c h)))))
        = fst (snd (free K p c h)))
   \<and> (valid c = 0 \<and> fd c = - 1 \<and> ip c = None \<and> mem_access c = None
        \<and> mmio_access c = None \<and> cl_idle_cycles c = 0
      \<longrightarrow> fst (free K p c h) = c)
   \<and> (mem_access c = Some a \<and> mem_state (cmd_events h a) \<noteq> MEM_DONE K
      \<longrightarrow> resp (cmd_events (fst (snd (free K p c h))) a) = PSL_RESPONSE_AERROR K
        \<and> mem_state (cmd_events (fst (snd (free K p c h))) a) = MEM_DONE K
        \<and> mem_access (fst (free K p c h)) = None)"
proof (intro conjI impI)
  show "fst (free K p' (fst (free K p c h)) (fst (snd (free K p c h)))) = fst (free K p c h)"
    by (simp add: free_client)
  show "fst (snd (free K p' (fst (free K p c h)) (fst (snd (free K p c h)))))
        = fst (snd (free K p c h))"
    by (cases "job c")
      (simp_all add: free_client free_heap [of K p'] free_heap [of K p c h] Let_def)
  show "fst (free K p c h) = c"
    if "valid c = 0 \<and> fd c = - 1 \<and> ip c = None \<and> mem_access c = None
        \<and> mmio_access c = None \<and> cl_idle_cycles c = 0"
    using that by (simp add: free_client)
next
  assume a: "mem_access c = Some a \<and> mem_state (cmd_events h a) \<noteq> MEM_DONE K"
  show "resp (cmd_events (fst (snd (free K p c h))) a) = PSL_RESPONSE_AERROR K"
    using a by (simp add: free_heap Let_def split: option.splits)
  show "mem_state (cmd_events (fst (snd (free K p c h))) a) = MEM_DONE K"
    using a by (simp add: free_heap Let_def split: option.splits)
  show "mem_access (fst (free K p c h)) = None"
    by (simp add: free_client)
qed

theorem free_idempotent_witness:
  "fst (free example_config example_psl freed_client example_heap) = freed_client
   \<and> resp (cmd_events (fst (snd (free example_config example_psl
        (example_client\<lparr>mem_access := Some 4\<rparr>) example_heap))) 4) = 1
   \<and> mem_state (cmd_events (fst (snd (free example_config example_psl
        (example_client\<lparr>mem_access := Some 4\<rparr>) example_heap))) 4) = 9
   \<and> mem_access (fst (free example_config example_psl
        (example_client\<lparr>mem_access := Some 4\<rparr>) example_heap)) = None
   \<and> mem_state (cmd_events example_heap 4) = 0"
  using free_idempotent [of example_config example_psl example_psl freed_client
      example_heap 4]
    free_idempotent [of example_config example_psl example_psl
      "example_client\<lparr>mem_access := Some 4\<rparr>" example_heap 4]
  by (simp add: freed_client_def example_client_def example_config_def example_heap_def)

subsection \<open>Attach\<close>

text \<open>
  Claim C3. Every call of \<^verbatim>\<open>_attach\<close> writes exactly one acknowledgement, of one
  byte, to the client: \<^verbatim>\<open>PSLSE_ATTACH\<close> when the 8 bytes were read and
  \<^verbatim>\<open>add_job\<close> returned a job, and then the session's countdown is set to
  \<^verbatim>\<open>PSL_IDLE_CYCLES\<close>; \<^verbatim>\<open>PSLSE_DETACH\<close> on the two other paths, and then the
  session record is as it was.
\<close>

theorem attach_one_ack:
  "filter is_put (snd (attach K ai p c)) =
     [Put_bytes (fd c)
        [if wed_buf ai \<noteq> None \<and> job_added ai then PSLSE_ATTACH K else PSLSE_DETACH K]]
   \<and> fst (attach K ai p c) =
     (if wed_buf ai \<noteq> None \<and> job_added ai then p\<lparr>idle_cycles := PSL_IDLE_CYCLES K\<rparr>
      else p)"
  by (simp add: attach_def attach_done_def Let_def split: option.splits)



subsection \<open>The dispatcher\<close>

lemma attach_fd: "fd c' = fd c \<Longrightarrow> attach K ai p c' = attach K ai p c"
  by (simp add: attach_def attach_done_def Let_def split: option.splits)

lemma on_attach_fd: "fd c' = fd c \<Longrightarrow> on_attach K ci b p c' = on_attach K ci b p c"
  using attach_fd [of c' c K "att ci" p] by (simp add: on_attach_def)

lemma on_detach_fields:
  "fd (on_detach K b c) = fd c"
  "ip (on_detach K b c) = ip c"
  "context_id (on_detach K b c) = context_id c"
  "mem_access (on_detach K b c) = mem_access c"
  "mmio_access (on_detach K b c) = mmio_access c"
  "job (on_detach K b c) = job c"
  "valid (on_detach K b c) = (if b = PSLSE_DETACH K then - 1 else valid c)"
  by (simp_all add: on_detach_def)

lemma on_mem_failure_fields:
  "fd (fst (on_mem_failure K b cmd c)) = fd c"
  "ip (fst (on_mem_failure K b cmd c)) = ip c"
  "context_id (fst (on_mem_failure K b cmd c)) = context_id c"
  "mmio_access (fst (on_mem_failure K b cmd c)) = mmio_access c"
  "job (fst (on_mem_failure K b cmd c)) = job c"
  "valid (fst (on_mem_failure K b cmd c)) = valid c"
  "snd (on_mem_failure K b cmd c) =
     (if b = PSLSE_MEM_FAILURE K then [Handle_aerror cmd] else [])"
  by (simp_all add: on_mem_failure_def)

lemma on_mem_success_fields:
  "fd (fst (on_mem_success K b cmd c)) = fd c"
  "ip (fst (on_mem_success K b cmd c)) = ip c"
  "context_id (fst (on_mem_success K b cmd c)) = context_id c"
  "mmio_access (fst (on_mem_success K b cmd c)) = mmio_access c"
  "job (fst (on_mem_success K b cmd c)) = job c"
  "valid (fst (on_mem_success K b cmd c)) = valid c"
  "snd (on_mem_success K b cmd c) =
     (if b = PSLSE_MEM_SUCCESS K then [Handle_mem_return cmd (fd c)] else [])"
  by (simp_all add: on_mem_success_def)

lemma on_mmio_trace:
  "snd (on_mmio K ci b c) =
     (if b = PSLSE_MMIO_WRITE64 K then [Handle_mmio (context_id c) False True] else [])
     @ (if b = PSLSE_MMIO_READ64 K then [Handle_mmio (context_id c) True True] else [])
     @ (if b = PSLSE_MMIO_WRITE32 K then [Handle_mmio (context_id c) False False] else [])
     @ (if b = PSLSE_MMIO_READ32 K then [Handle_mmio (context_id c) True False] else [])"
  by (simp add: on_mmio_def)

lemma on_mmio_ctx: "context_id c' = context_id c \<Longrightarrow> on_mmio K ci b c' = on_mmio K ci b c"
  by (simp add: on_mmio_def)

lemma on_mmio_map_ctx:
  "context_id c' = context_id c \<Longrightarrow> on_mmio_map K b c' = on_mmio_map K b c"
  by (simp add: on_mmio_map_def)

lemma dispatch_psl: "fst (dispatch K ci b cmd p c) = fst (on_attach K ci b p c)"
  by (simp add: dispatch_def Let_def case_prod_beta
      on_attach_fd [of "on_detach K b c" c] on_detach_fields)

lemma dispatch_trace:
  "snd (snd (dispatch K ci b cmd p c)) =
     snd (on_attach K ci b p c) @ snd (on_mem_failure K b cmd c)
     @ snd (on_mem_success K b cmd c) @ on_mmio_map K b c @ snd (on_mmio K ci b c)"
proof -
  let ?c1 = "on_detach K b c"
  let ?c3 = "fst (on_mem_failure K b cmd ?c1)"
  let ?c4 = "fst (on_mem_success K b cmd ?c3)"
  have ctx: "context_id ?c4 = context_id c"
    by (simp add: on_mem_success_fields on_mem_failure_fields on_detach_fields)
  have "on_attach K ci b p ?c1 = on_attach K ci b p c"
    by (rule on_attach_fd) (simp add: on_detach_fields)
  moreover have "snd (on_mem_failure K b cmd ?c1) = snd (on_mem_failure K b cmd c)"
    by (simp add: on_mem_failure_fields)
  moreover have "snd (on_mem_success K b cmd ?c3) = snd (on_mem_success K b cmd c)"
    by (simp add: on_mem_success_fields on_mem_failure_fields on_detach_fields)
  moreover have "on_mmio_map K b ?c4 = on_mmio_map K b c"
    using ctx by (rule on_mmio_map_ctx)
  moreover have "on_mmio K ci b ?c4 = on_mmio K ci b c"
    using ctx by (rule on_mmio_ctx)
  ultimately show ?thesis
    by (simp add: dispatch_def Let_def case_prod_beta)
qed

lemma dispatch_client:
  "cl_idle_cycles (fst (snd (dispatch K ci b cmd p c))) = PSL_IDLE_CYCLES K"
  "fd (fst (snd (dispatch K ci b cmd p c))) = fd c"
  "ip (fst (snd (dispatch K ci b cmd p c))) = ip c"
  "job (fst (snd (dispatch K ci b cmd p c))) = job c"
  "context_id (fst (snd (dispatch K ci b cmd p c))) = context_id c"
  "valid (fst (snd (dispatch K ci b cmd p c))) = (if b = PSLSE_DETACH K then - 1 else valid c)"
  by (simp_all add: dispatch_def Let_def case_prod_beta on_mem_success_fields
      on_mem_failure_fields on_detach_fields split: option.splits)

lemma dispatch_unknown:
  assumes "b \<notin> set (commands K)"
  shows "dispatch K ci b cmd p c = (p, c\<lparr>cl_idle_cycles := PSL_IDLE_CYCLES K\<rparr>, [])"
  using assms
  by (simp add: dispatch_def commands_def Let_def on_detach_def on_attach_def
      on_mem_failure_def on_mem_success_def on_mmio_map_def on_mmio_def)


lemma dispatch_valid:
  "snd (snd (dispatch K ci b cmd p (c\<lparr>valid := v\<rparr>))) = snd (snd (dispatch K ci b cmd p c))"
  by (simp add: dispatch_trace on_attach_fd [of "c\<lparr>valid := v\<rparr>" c]
      on_mem_failure_fields on_mem_success_fields
      on_mmio_map_ctx [of "c\<lparr>valid := v\<rparr>" c] on_mmio_ctx [of "c\<lparr>valid := v\<rparr>" c])


lemma handle_mmio_done_step_fields:
  "fd (fst (handle_mmio_done_step K ci c)) = fd c"
  "ip (fst (handle_mmio_done_step K ci c)) = ip c"
  "valid (fst (handle_mmio_done_step K ci c)) = valid c"
  "mem_access (fst (handle_mmio_done_step K ci c)) = mem_access c"
  "job (fst (handle_mmio_done_step K ci c)) = job c"
  "context_id (fst (handle_mmio_done_step K ci c)) = context_id c"
  by (simp_all add: handle_mmio_done_step_def)

lemma handle_client_nopoll:
  assumes "\<not> poll_ready ci"
  shows "handle_client K ci p c h =
           (p, fst (handle_mmio_done_step K ci c), h, snd (handle_mmio_done_step K ci c))"
  using assms by (simp add: handle_client_def Let_def case_prod_beta)

lemma handle_client_hangup:
  assumes "poll_ready ci" and "hdr ci = None"
  shows "handle_client K ci p c h =
           (p, fst (free K p (fst (handle_mmio_done_step K ci c)) h),
            fst (snd (free K p (fst (handle_mmio_done_step K ci c)) h)),
            snd (handle_mmio_done_step K ci c) @ [Get_bytes (fd c) 1 1]
            @ free_events p (fst (handle_mmio_done_step K ci c)))"
  using assms
  by (simp add: handle_client_def Let_def case_prod_beta handle_mmio_done_step_fields
      free_trace)

lemma handle_client_read:
  assumes "poll_ready ci" and "hdr ci = Some b"
  shows "handle_client K ci p c h =
           (fst (dispatch K ci b (mem_access c) p (fst (handle_mmio_done_step K ci c))),
            fst (snd (dispatch K ci b (mem_access c) p (fst (handle_mmio_done_step K ci c)))),
            h,
            snd (handle_mmio_done_step K ci c) @ [Get_bytes (fd c) 1 1]
            @ snd (snd (dispatch K ci b (mem_access c) p
                (fst (handle_mmio_done_step K ci c)))))"
  using assms
  by (simp add: handle_client_def Let_def case_prod_beta handle_mmio_done_step_fields)

text \<open>
  Claim C9, amended. Whenever the one-byte read of \<^verbatim>\<open>_handle_client\<close> succeeds, the
  client's countdown is \<^verbatim>\<open>PSL_IDLE_CYCLES\<close> when the dispatcher returns, whatever the
  byte. A byte that is none of the nine commands makes no call and changes nothing but
  that countdown: the session record, and with it the session's own countdown, which
  alone decides whether the AFU is clocked, is as it was.
\<close>

theorem read_resets_client_countdown:
  assumes "poll_ready ci" and "hdr ci = Some b"
  shows "cl_idle_cycles (fst (snd (handle_client K ci p c h))) = PSL_IDLE_CYCLES K
    \<and> (b \<notin> set (commands K) \<longrightarrow>
         handle_client K ci p c h =
           (p, (fst (handle_mmio_done_step K ci c))\<lparr>cl_idle_cycles := PSL_IDLE_CYCLES K\<rparr>, h,
            snd (handle_mmio_done_step K ci c) @ [Get_bytes (fd c) 1 1]))"
  using assms by (simp add: handle_client_read dispatch_client dispatch_unknown)

theorem read_resets_client_countdown_witness:
  "poll_ready (sends 255) \<and> hdr (sends 255) = Some 255 \<and> 255 \<notin> set (commands example_config)
   \<and> handle_client example_config (sends 255) example_psl example_client example_heap =
       (example_psl, example_client\<lparr>cl_idle_cycles := 20\<rparr>, example_heap, [Get_bytes 7 1 1])"
  using read_resets_client_countdown [of "sends 255" 255 example_config example_psl
      example_client example_heap]
  by (simp add: sends_def silent_def commands_def example_config_def example_client_def
      handle_mmio_done_step_def)

text \<open>The definitions a concrete run unfolds.\<close>

lemmas eval_defs =
  psl_iter_def clock_step_def loop_top_def client_iter_def handle_client_def
  handle_mmio_done_step_def dispatch_def on_detach_def on_attach_def on_mem_failure_def
  on_mem_success_def on_mmio_map_def on_mmio_def attach_def attach_done_def free_def
  free_events_def handle_afu_def Let_def
  example_config_def example_psl_def example_client_def zero_psl_def
  sends_def silent_def hangup_def idle_iter_def

text \<open>
  Claim C9, as stated, fails in its last part: the byte restarts the client's countdown
  but does not keep the session clocking. The session below is IDLE with one cycle left
  and empty queues. The iteration that reads the unknown byte 255 clocks the AFU once and
  leaves the session's countdown at zero while the client's is 19; the next iteration
  sleeps and signals no clock.
\<close>

theorem unknown_byte_counterexample:
  "255 \<notin> set (commands example_config)
   \<and> psl_iter example_config (idle_iter (sends 255)) clocking_state =
       (False, gated_state,
        [Mutex_lock Psl_lock, Signal_afu_model, Get_afu_events, Mutex_unlock Psl_lock,
         Send_job, Send_mmio, Get_bytes 7 1 1, Client_cmd 0])
   \<and> psl_iter example_config (idle_iter silent) gated_state =
       (False,
        gated_state\<lparr>the_psl := (the_psl gated_state)
           \<lparr>client := [example_client\<lparr>cl_idle_cycles := 18\<rparr>]\<rparr>, stopped := True\<rparr>,
        [Info_msg ''Stopping clocks to %s'', Ns_delay 1000000, Client_cmd 0])"
  by (simp add: eval_defs commands_def clocking_state_def gated_state_def)



subsection \<open>A detaching client\<close>

lemma handle_client_valid:
  "snd (snd (snd (handle_client K ci p (c\<lparr>valid := v\<rparr>) h))) =
   snd (snd (snd (handle_client K ci p c h)))"
proof -
  have step: "fst (handle_mmio_done_step K ci (c\<lparr>valid := v\<rparr>)) =
      (fst (handle_mmio_done_step K ci c))\<lparr>valid := v\<rparr>"
    "snd (handle_mmio_done_step K ci (c\<lparr>valid := v\<rparr>)) = snd (handle_mmio_done_step K ci c)"
    by (simp_all add: handle_mmio_done_step_def)
  show ?thesis
  proof (cases "poll_ready ci")
    case False
    then show ?thesis by (simp add: handle_client_nopoll step)
  next
    case True
    show ?thesis
    proof (cases "hdr ci")
      case None
      with True show ?thesis
        by (simp add: handle_client_hangup step free_events_def)
    next
      case (Some b)
      with True show ?thesis
        by (simp add: handle_client_read step dispatch_valid)
    qed
  qed
qed

lemma dispatch_filter:
  "filter is_dispatch (snd (snd (dispatch K ci b cmd p c))) =
     (if b = PSLSE_MEM_FAILURE K then [Handle_aerror cmd] else [])
     @ (if b = PSLSE_MEM_SUCCESS K then [Handle_mem_return cmd (fd c)] else [])
     @ (if b = PSLSE_MMIO_MAP K then [Handle_mmio_map (context_id c)] else [])
     @ (if b = PSLSE_MMIO_WRITE64 K then [Handle_mmio (context_id c) False True] else [])
     @ (if b = PSLSE_MMIO_READ64 K then [Handle_mmio (context_id c) True True] else [])
     @ (if b = PSLSE_MMIO_WRITE32 K then [Handle_mmio (context_id c) False False] else [])
     @ (if b = PSLSE_MMIO_READ32 K then [Handle_mmio (context_id c) True False] else [])"
proof -
  have "filter is_dispatch (snd (on_attach K ci b p c)) = []"
    by (simp add: on_attach_def attach_def attach_done_def Let_def split: option.splits)
  then show ?thesis
    by (simp add: dispatch_trace on_mem_failure_fields on_mem_success_fields on_mmio_trace
        on_mmio_map_def)
qed

lemma mmio_done_filter:
  "filter is_dispatch (snd (handle_mmio_done_step K ci c)) = []"
  "filter is_put (snd (handle_mmio_done_step K ci c)) = []"
  by (simp_all add: handle_mmio_done_step_def)

lemma free_events_filter:
  "filter is_dispatch (free_events p c) = []"
  "filter is_put (free_events p c) = []"
  by (simp_all add: free_events_def split: option.splits)

lemma client_iter_unfold:
  assumes "valid c \<noteq> 0"
  shows "client_iter K ci i p c h =
     (let r = handle_client K ci p c h; p1 = fst r; c1 = fst (snd r); h1 = fst (snd (snd r));
          e1 = snd (snd (snd r))
      in if valid c1 < 0 \<and> cl_idle_cycles c1 = 0
         then (p1, fst (free K p1 c1 h1), fst (snd (free K p1 c1 h1)),
               e1 @ [Mutex_lock Psl_lock, Put_bytes (fd c1) [PSLSE_DETACH K],
                     Mutex_unlock Psl_lock] @ free_events p1 c1)
         else (p1,
               (if cmd_pending ci then c1\<lparr>cl_idle_cycles := PSL_IDLE_CYCLES K\<rparr>
                else if cl_idle_cycles c1 \<noteq> 0
                then c1\<lparr>cl_idle_cycles := cl_idle_cycles c1 - 1\<rparr> else c1),
               h1, e1 @ [Client_cmd i]))"
  using assms by (simp add: client_iter_def Let_def case_prod_beta free_trace)


lemma client_iter_nopoll:
  assumes "valid c \<noteq> 0" and "\<not> poll_ready ci" and "mmio_access c = None"
  shows "client_iter K ci i p c h =
     (if valid c < 0 \<and> cl_idle_cycles c = 0
      then (p, fst (free K p c h), fst (snd (free K p c h)),
            [Mutex_lock Psl_lock, Put_bytes (fd c) [PSLSE_DETACH K], Mutex_unlock Psl_lock]
            @ free_events p c)
      else (p,
            (if cmd_pending ci then c\<lparr>cl_idle_cycles := PSL_IDLE_CYCLES K\<rparr>
             else if cl_idle_cycles c \<noteq> 0 then c\<lparr>cl_idle_cycles := cl_idle_cycles c - 1\<rparr>
             else c),
            h, [Client_cmd i]))"
  using assms
  by (simp add: client_iter_unfold handle_client_nopoll handle_mmio_done_step_def Let_def)

text \<open>
  Claim C1, amended. The dispatcher never looks at the validity of the client: its calls
  for a detaching client are those for a connected one, and a MEM_FAILURE, MEM_SUCCESS,
  MMIO_MAP or MMIO read or write byte read from a detaching client is dispatched to the
  command or MMIO subsystem. With a countdown maximum above zero, an iteration releases a
  detaching client in two cases only: nothing is readable, no MMIO access is outstanding
  and the client's countdown has reached zero, and then the DETACH acknowledgement is
  written first; or the one-byte read fails, and then the client is released at once,
  whatever its countdown, and no acknowledgement is written.
\<close>

theorem detaching_client_pass:
  assumes det: "valid c = - 1" and pos: "0 < PSL_IDLE_CYCLES K"
  shows "snd (snd (snd (handle_client K ci p c h))) =
           snd (snd (snd (handle_client K ci p (c\<lparr>valid := 1\<rparr>) h)))
    \<and> (poll_ready ci \<and> hdr ci = Some b \<longrightarrow>
         filter is_dispatch (snd (snd (snd (client_iter K ci i p c h)))) =
           (if b = PSLSE_MEM_FAILURE K then [Handle_aerror (mem_access c)] else [])
           @ (if b = PSLSE_MEM_SUCCESS K then [Handle_mem_return (mem_access c) (fd c)] else [])
           @ (if b = PSLSE_MMIO_MAP K then [Handle_mmio_map (context_id c)] else [])
           @ (if b = PSLSE_MMIO_WRITE64 K then [Handle_mmio (context_id c) False True] else [])
           @ (if b = PSLSE_MMIO_READ64 K then [Handle_mmio (context_id c) True True] else [])
           @ (if b = PSLSE_MMIO_WRITE32 K then [Handle_mmio (context_id c) False False] else [])
           @ (if b = PSLSE_MMIO_READ32 K then [Handle_mmio (context_id c) True False] else []))
    \<and> (valid (fst (snd (client_iter K ci i p c h))) = 0 \<longleftrightarrow>
         (poll_ready ci \<and> hdr ci = None)
         \<or> (\<not> poll_ready ci \<and> mmio_access c = None \<and> cl_idle_cycles c = 0))
    \<and> (\<not> poll_ready ci \<and> mmio_access c = None \<and> cl_idle_cycles c = 0 \<longrightarrow>
         snd (snd (snd (client_iter K ci i p c h))) =
           [Mutex_lock Psl_lock, Put_bytes (fd c) [PSLSE_DETACH K], Mutex_unlock Psl_lock]
           @ free_events p c)
    \<and> (poll_ready ci \<and> hdr ci = None \<longrightarrow>
         filter is_put (snd (snd (snd (client_iter K ci i p c h)))) = [])"
proof -
  let ?c1 = "fst (handle_mmio_done_step K ci c)"
  have nz: "valid c \<noteq> 0" using det by simp
  have c1: "valid ?c1 = - 1" "fd ?c1 = fd c" "context_id ?c1 = context_id c"
    using det by (simp_all add: handle_mmio_done_step_fields)
  have idle1: "cl_idle_cycles ?c1 = 0 \<longleftrightarrow> mmio_access c = None \<and> cl_idle_cycles c = 0"
    using pos by (auto simp add: handle_mmio_done_step_def)
  have A: "snd (snd (snd (handle_client K ci p c h))) =
           snd (snd (snd (handle_client K ci p (c\<lparr>valid := 1\<rparr>) h)))"
    by (simp add: handle_client_valid)
  have B: "filter is_dispatch (snd (snd (snd (client_iter K ci i p c h)))) =
           (if b = PSLSE_MEM_FAILURE K then [Handle_aerror (mem_access c)] else [])
           @ (if b = PSLSE_MEM_SUCCESS K then [Handle_mem_return (mem_access c) (fd c)] else [])
           @ (if b = PSLSE_MMIO_MAP K then [Handle_mmio_map (context_id c)] else [])
           @ (if b = PSLSE_MMIO_WRITE64 K then [Handle_mmio (context_id c) False True] else [])
           @ (if b = PSLSE_MMIO_READ64 K then [Handle_mmio (context_id c) True True] else [])
           @ (if b = PSLSE_MMIO_WRITE32 K then [Handle_mmio (context_id c) False False] else [])
           @ (if b = PSLSE_MMIO_READ32 K then [Handle_mmio (context_id c) True False] else [])"
    if "poll_ready ci \<and> hdr ci = Some b"
    using that pos nz
    by (simp add: client_iter_unfold handle_client_read dispatch_client dispatch_filter
        mmio_done_filter c1 Let_def)
  have C: "valid (fst (snd (client_iter K ci i p c h))) = 0 \<longleftrightarrow>
         (poll_ready ci \<and> hdr ci = None)
         \<or> (\<not> poll_ready ci \<and> mmio_access c = None \<and> cl_idle_cycles c = 0)"
  proof (cases "poll_ready ci")
    case False
    then show ?thesis
      using nz idle1 c1
      by (simp add: client_iter_unfold handle_client_nopoll Let_def free_client)
  next
    case True
    show ?thesis
    proof (cases "hdr ci")
      case None
      with True show ?thesis
        using nz by (simp add: client_iter_unfold handle_client_hangup Let_def free_client)
    next
      case (Some b')
      with True show ?thesis
        using nz pos c1
        by (simp add: client_iter_unfold handle_client_read Let_def dispatch_client)
    qed
  qed
  have D: "snd (snd (snd (client_iter K ci i p c h))) =
           [Mutex_lock Psl_lock, Put_bytes (fd c) [PSLSE_DETACH K], Mutex_unlock Psl_lock]
           @ free_events p c"
    if "\<not> poll_ready ci \<and> mmio_access c = None \<and> cl_idle_cycles c = 0"
    using that nz det by (simp add: client_iter_nopoll)
  have E: "filter is_put (snd (snd (snd (client_iter K ci i p c h)))) = []"
    if "poll_ready ci \<and> hdr ci = None"
    using that nz
    by (simp add: client_iter_unfold handle_client_hangup Let_def free_client
        mmio_done_filter free_events_filter)
  from A B C D E show ?thesis by blast
qed

theorem detaching_client_pass_witness:
  "valid (example_client\<lparr>valid := - 1\<rparr>) = - 1 \<and> 0 < PSL_IDLE_CYCLES example_config
   \<and> valid (fst (snd (client_iter example_config silent 0 example_psl
        (example_client\<lparr>valid := - 1\<rparr>) example_heap))) = 0
   \<and> snd (snd (snd (client_iter example_config silent 0 example_psl
        (example_client\<lparr>valid := - 1\<rparr>) example_heap))) =
       [Mutex_lock Psl_lock, Put_bytes 7 [1], Mutex_unlock Psl_lock,
        Debug_context_remove 0 0, Info_msg ''%s client disconnect from %s context %d'',
        Mutex_lock Psl_lock, Close 7, Free_str ''10.0.0.2'', Mutex_unlock Psl_lock]
   \<and> filter is_dispatch (snd (snd (snd (client_iter example_config (sends 3) 0 example_psl
        (example_client\<lparr>valid := - 1, mem_access := Some 4\<rparr>) example_heap)))) =
       [Handle_aerror (Some 4)]
   \<and> filter is_put (snd (snd (snd (client_iter example_config hangup 0 example_psl
        (example_client\<lparr>valid := - 1, cl_idle_cycles := 5\<rparr>) example_heap)))) = []"
  using detaching_client_pass [of "example_client\<lparr>valid := - 1\<rparr>" example_config silent
      example_psl example_heap 0 0]
    detaching_client_pass [of "example_client\<lparr>valid := - 1, mem_access := Some 4\<rparr>"
      example_config "sends 3" example_psl example_heap 3 0]
    detaching_client_pass [of "example_client\<lparr>valid := - 1, cl_idle_cycles := 5\<rparr>"
      example_config hangup example_psl example_heap 0 0]
  by (simp add: example_client_def example_config_def silent_def sends_def hangup_def
      free_events_def example_psl_def zero_psl_def)

text \<open>
  Claim C1, as stated, fails twice. A detaching client with 5 cycles left sends
  MEM_FAILURE: the byte is dispatched (\<^verbatim>\<open>handle_aerror\<close> is called for its access).
  The same client hangs up: it is released in that iteration, with 5 cycles left.
\<close>

theorem detaching_dispatch_counterexample:
  "valid (example_client\<lparr>valid := - 1, cl_idle_cycles := 5, mem_access := Some 4\<rparr>) = - 1
   \<and> hdr (sends 3) = Some (PSLSE_MEM_FAILURE example_config)
   \<and> client_iter example_config (sends 3) 0 example_psl
        (example_client\<lparr>valid := - 1, cl_idle_cycles := 5, mem_access := Some 4\<rparr>)
        example_heap =
       (example_psl, example_client\<lparr>valid := - 1, cl_idle_cycles := 19\<rparr>, example_heap,
        [Get_bytes 7 1 1, Handle_aerror (Some 4), Client_cmd 0])
   \<and> hdr hangup = None
   \<and> fst (snd (client_iter example_config hangup 0 example_psl
        (example_client\<lparr>valid := - 1, cl_idle_cycles := 5, mem_access := Some 4\<rparr>)
        example_heap)) = freed_client
   \<and> filter is_put (snd (snd (snd (client_iter example_config hangup 0 example_psl
        (example_client\<lparr>valid := - 1, cl_idle_cycles := 5, mem_access := Some 4\<rparr>)
        example_heap)))) = []"
  by (simp add: eval_defs freed_client_def)



subsection \<open>Detach\<close>








subsection \<open>The session's countdown\<close>

lemma attach_psl:
  "fst (attach K ai p c) =
     (if wed_buf ai \<noteq> None \<and> job_added ai then p\<lparr>idle_cycles := PSL_IDLE_CYCLES K\<rparr>
      else p)"
  by (simp add: attach_def Let_def split: option.splits)

lemma handle_client_psl:
  "fst (handle_client K ci p c h) =
     (if poll_ready ci \<and> hdr ci = Some (PSLSE_ATTACH K) \<and> wed_buf (att ci) \<noteq> None
         \<and> job_added (att ci)
      then p\<lparr>idle_cycles := PSL_IDLE_CYCLES K\<rparr> else p)"
proof (cases "poll_ready ci")
  case False
  then show ?thesis by (simp add: handle_client_nopoll)
next
  case True
  show ?thesis
  proof (cases "hdr ci")
    case None
    with True show ?thesis by (simp add: handle_client_hangup)
  next
    case (Some b)
    with True show ?thesis
      by (simp add: handle_client_read dispatch_psl on_attach_def attach_psl)
  qed
qed

lemma client_iter_psl:
  "fst (client_iter K ci i p c h) =
     (if valid c \<noteq> 0 \<and> poll_ready ci \<and> hdr ci = Some (PSLSE_ATTACH K)
         \<and> wed_buf (att ci) \<noteq> None \<and> job_added (att ci)
      then p\<lparr>idle_cycles := PSL_IDLE_CYCLES K\<rparr> else p)"
proof (cases "valid c = 0")
  case True
  then show ?thesis by (simp add: client_iter_def)
next
  case False
  then show ?thesis
    by (auto simp add: client_iter_unfold Let_def handle_client_psl)
qed

lemma clients_loop_length:
  "length (fst (snd (clients_loop K cin i p h cs))) = length cs"
  by (induction cs arbitrary: i p h) (simp_all add: case_prod_beta Let_def)

lemma clients_loop_psl_cases:
  "fst (clients_loop K cin i p h cs) = p
   \<or> fst (clients_loop K cin i p h cs) = p\<lparr>idle_cycles := PSL_IDLE_CYCLES K\<rparr>"
proof (induction cs arbitrary: i p h)
  case Nil
  then show ?case by simp
next
  case (Cons c cs)
  let ?r = "client_iter K (cin i) i p c h"
  have step: "fst ?r = p \<or> fst ?r = p\<lparr>idle_cycles := PSL_IDLE_CYCLES K\<rparr>"
    by (simp add: client_iter_psl)
  have rest: "fst (clients_loop K cin (Suc i) (fst ?r) (fst (snd (snd ?r))) cs) = fst ?r
     \<or> fst (clients_loop K cin (Suc i) (fst ?r) (fst (snd (snd ?r))) cs)
        = (fst ?r)\<lparr>idle_cycles := PSL_IDLE_CYCLES K\<rparr>"
    by (rule Cons.IH)
  from step rest show ?case
    by (auto simp add: case_prod_beta Let_def)
qed

lemma clients_loop_psl_idle:
  assumes "\<forall>j. i \<le> j \<and> j < i + length cs \<longrightarrow> \<not> attaches K (cin j)"
  shows "fst (clients_loop K cin i p h cs) = p"
  using assms
proof (induction cs arbitrary: i p h)
  case Nil
  then show ?case by simp
next
  case (Cons c cs)
  have here: "\<not> attaches K (cin i)" using Cons.prems by simp
  have step: "fst (client_iter K (cin i) i p c h) = p"
    using here by (auto simp add: client_iter_psl attaches_def)
  have later: "\<forall>j. Suc i \<le> j \<and> j < Suc i + length cs \<longrightarrow> \<not> attaches K (cin j)"
    using Cons.prems by simp
  show ?case
    using Cons.IH [OF later] step by (simp add: case_prod_beta Let_def)
qed

lemma clients_loop_psl_attach:
  assumes "j < length cs" and "valid (cs ! j) \<noteq> 0" and "attaches K (cin (i + j))"
  shows "fst (clients_loop K cin i p h cs) = p\<lparr>idle_cycles := PSL_IDLE_CYCLES K\<rparr>"
  using assms
proof (induction cs arbitrary: i j p h)
  case Nil
  then show ?case by simp
next
  case (Cons c cs)
  let ?r = "client_iter K (cin i) i p c h"
  let ?rest = "clients_loop K cin (Suc i) (fst ?r) (fst (snd (snd ?r))) cs"
  have unfold: "fst (clients_loop K cin i p h (c # cs)) = fst ?rest"
    by (simp add: case_prod_beta Let_def)
  show ?case
  proof (cases j)
    case 0
    then have "fst ?r = p\<lparr>idle_cycles := PSL_IDLE_CYCLES K\<rparr>"
      using Cons.prems by (simp add: client_iter_psl attaches_def)
    moreover have "fst ?rest = fst ?r
        \<or> fst ?rest = (fst ?r)\<lparr>idle_cycles := PSL_IDLE_CYCLES K\<rparr>"
      by (rule clients_loop_psl_cases)
    ultimately show ?thesis
      unfolding unfold by auto
  next
    case (Suc j')
    have "fst ?rest = (fst ?r)\<lparr>idle_cycles := PSL_IDLE_CYCLES K\<rparr>"
      using Cons.prems Suc by (intro Cons.IH [of j' "Suc i"]) simp_all
    moreover have "fst ?r = p \<or> fst ?r = p\<lparr>idle_cycles := PSL_IDLE_CYCLES K\<rparr>"
      by (simp add: client_iter_psl)
    ultimately show ?thesis
      unfolding unfold by auto
  qed
qed

lemma attach_no_signal: "Signal_afu_model \<notin> set (snd (attach K ai p c))"
  by (simp add: attach_def attach_done_def Let_def split: option.splits)

lemma dispatch_no_signal: "Signal_afu_model \<notin> set (snd (snd (dispatch K ci b cmd p c)))"
  by (simp add: dispatch_trace on_attach_def attach_no_signal on_mem_failure_fields
      on_mem_success_fields on_mmio_map_def on_mmio_trace)

lemma free_events_no_signal: "Signal_afu_model \<notin> set (free_events p c)"
  by (simp add: free_events_def split: option.splits)

lemma handle_client_no_signal:
  "Signal_afu_model \<notin> set (snd (snd (snd (handle_client K ci p c h))))"
proof (cases "poll_ready ci")
  case False
  then show ?thesis by (simp add: handle_client_nopoll handle_mmio_done_step_def)
next
  case True
  show ?thesis
  proof (cases "hdr ci")
    case None
    with True show ?thesis
      by (simp add: handle_client_hangup handle_mmio_done_step_def free_events_no_signal)
  next
    case (Some b)
    with True show ?thesis
      by (simp add: handle_client_read handle_mmio_done_step_def dispatch_no_signal)
  qed
qed

lemma client_iter_no_signal:
  "Signal_afu_model \<notin> set (snd (snd (snd (client_iter K ci i p c h))))"
proof (cases "valid c = 0")
  case True
  then show ?thesis by (simp add: client_iter_def)
next
  case False
  then show ?thesis
    by (simp add: client_iter_unfold Let_def handle_client_no_signal free_events_no_signal)
qed

lemma clients_loop_no_signal:
  "Signal_afu_model \<notin> set (snd (snd (snd (clients_loop K cin i p h cs))))"
  by (induction cs arbitrary: i p h)
    (simp_all add: case_prod_beta Let_def client_iter_no_signal)


lemma clock_step_idle:
  assumes "state p = PSLSE_IDLE K" and "idle_cycles p \<noteq> 0" and "0 \<le> afu_events x"
    and "job_idle x" and "mmio_idle x"
  shows "clock_step K x p st =
           (False, p\<lparr>idle_cycles := idle_cycles p - 1\<rparr>, st,
            [Mutex_lock Psl_lock, Signal_afu_model, Get_afu_events, Mutex_unlock Psl_lock]
            @ (if 0 < afu_events x then handle_afu p else []) @ [Send_job, Send_mmio])"
  using assms by (simp add: clock_step_def loop_top_def Let_def)

lemma clock_step_gated:
  assumes "state p = PSLSE_IDLE K" and "idle_cycles p = 0"
  shows "clock_step K x p st =
           (False, p, True,
            (if \<not> st then [Info_msg ''Stopping clocks to %s''] else [])
            @ [Ns_delay 1000000])"
  using assms by (simp add: clock_step_def loop_top_def Let_def)

lemma clock_step_busy:
  assumes "state p \<noteq> PSLSE_IDLE K" and "PSL_IDLE_CYCLES K \<noteq> 0"
  shows "Signal_afu_model \<in> set (snd (snd (snd (clock_step K x p st))))"
  using assms by (simp add: clock_step_def loop_top_def Let_def)

lemma idle_input_slots:
  assumes "idle_input K n x"
  shows "\<forall>j. 0 \<le> j \<and> j < 0 + n \<longrightarrow> \<not> attaches K (clients_in x j)"
  using assms by (simp add: idle_input_def list_all_iff)

lemma psl_iter_idle:
  assumes "idle_input K (max_clients (the_psl s)) x" and "idle_cycles (the_psl s) \<noteq> 0"
  shows "fst (psl_iter K x s) = False"
    and "idle_cycles (the_psl (fst (snd (psl_iter K x s)))) = idle_cycles (the_psl s) - 1"
    and "max_clients (the_psl (fst (snd (psl_iter K x s)))) = max_clients (the_psl s)"
    and "Signal_afu_model \<in> set (snd (snd (psl_iter K x s)))"
proof -
  let ?p0 = "(the_psl s)\<lparr>state := cur_state x\<rparr>"
  let ?p1 = "?p0\<lparr>idle_cycles := idle_cycles ?p0 - 1\<rparr>"
  have x: "cur_state x = PSLSE_IDLE K" "0 \<le> afu_events x" "job_idle x" "mmio_idle x"
    using assms(1) by (simp_all add: idle_input_def)
  have cs: "clock_step K x ?p0 (stopped s) =
      (False, ?p1, stopped s,
       [Mutex_lock Psl_lock, Signal_afu_model, Get_afu_events, Mutex_unlock Psl_lock]
       @ (if 0 < afu_events x then handle_afu ?p0 else []) @ [Send_job, Send_mmio])"
    using x assms(2) by (intro clock_step_idle) simp_all
  have slots: "\<forall>j. 0 \<le> j \<and> j < 0 + length (client ?p1)
      \<longrightarrow> \<not> attaches K (clients_in x j)"
    using idle_input_slots [OF assms(1)] by simp
  have keep: "fst (clients_loop K (clients_in x) 0 ?p1 (the_heap s) (client ?p1)) = ?p1"
    using slots by (rule clients_loop_psl_idle)
  show "fst (psl_iter K x s) = False"
    by (simp add: psl_iter_def Let_def cs case_prod_beta)
  show "idle_cycles (the_psl (fst (snd (psl_iter K x s)))) = idle_cycles (the_psl s) - 1"
    using keep by (simp add: psl_iter_def Let_def cs case_prod_beta)
  show "max_clients (the_psl (fst (snd (psl_iter K x s)))) = max_clients (the_psl s)"
    by (simp add: psl_iter_def Let_def cs case_prod_beta clients_loop_length)
  show "Signal_afu_model \<in> set (snd (snd (psl_iter K x s)))"
    by (simp add: psl_iter_def Let_def cs case_prod_beta)
qed

lemma psl_iter_gated:
  assumes "idle_input K (max_clients (the_psl s)) x" and "idle_cycles (the_psl s) = 0"
  shows "fst (psl_iter K x s) = False"
    and "idle_cycles (the_psl (fst (snd (psl_iter K x s)))) = 0"
    and "max_clients (the_psl (fst (snd (psl_iter K x s)))) = max_clients (the_psl s)"
    and "Signal_afu_model \<notin> set (snd (snd (psl_iter K x s)))"
    and "Ns_delay 1000000 \<in> set (snd (snd (psl_iter K x s)))"
proof -
  let ?p0 = "(the_psl s)\<lparr>state := cur_state x\<rparr>"
  have x: "cur_state x = PSLSE_IDLE K"
    using assms(1) by (simp add: idle_input_def)
  have cs: "clock_step K x ?p0 (stopped s) =
      (False, ?p0, True,
       (if \<not> stopped s then [Info_msg ''Stopping clocks to %s''] else [])
       @ [Ns_delay 1000000])"
    using x assms(2) by (intro clock_step_gated) simp_all
  have slots: "\<forall>j. 0 \<le> j \<and> j < 0 + length (client ?p0)
      \<longrightarrow> \<not> attaches K (clients_in x j)"
    using idle_input_slots [OF assms(1)] by simp
  have keep: "fst (clients_loop K (clients_in x) 0 ?p0 (the_heap s) (client ?p0)) = ?p0"
    using slots by (rule clients_loop_psl_idle)
  show "fst (psl_iter K x s) = False"
    by (simp add: psl_iter_def Let_def cs case_prod_beta)
  show "idle_cycles (the_psl (fst (snd (psl_iter K x s)))) = 0"
    using assms(2) keep by (simp add: psl_iter_def Let_def cs case_prod_beta)
  show "max_clients (the_psl (fst (snd (psl_iter K x s)))) = max_clients (the_psl s)"
    by (simp add: psl_iter_def Let_def cs case_prod_beta clients_loop_length)
  show "Signal_afu_model \<notin> set (snd (snd (psl_iter K x s)))"
    by (simp add: psl_iter_def Let_def cs case_prod_beta clients_loop_no_signal)
  show "Ns_delay 1000000 \<in> set (snd (snd (psl_iter K x s)))"
    by (simp add: psl_iter_def Let_def cs case_prod_beta)
qed

lemma psl_iter_transport:
  assumes "cur_state x = PSLSE_IDLE K" and "idle_cycles (the_psl s) \<noteq> 0"
    and "afu_events x < 0"
  shows "fst (psl_iter K x s) = True"
    and "idle_cycles (the_psl (fst (snd (psl_iter K x s)))) = idle_cycles (the_psl s)"
  using assms
  by (simp_all add: psl_iter_def clock_step_def loop_top_def Let_def)

lemma psl_iter_attach:
  assumes "cur_state x = PSLSE_IDLE K" and "idle_cycles (the_psl s) = 0"
    and "j < max_clients (the_psl s)" and "valid (client (the_psl s) ! j) \<noteq> 0"
    and "attaches K (clients_in x j)"
  shows "fst (psl_iter K x s) = False"
    and "idle_cycles (the_psl (fst (snd (psl_iter K x s)))) = PSL_IDLE_CYCLES K"
proof -
  let ?p0 = "(the_psl s)\<lparr>state := cur_state x\<rparr>"
  have cs: "clock_step K x ?p0 (stopped s) =
      (False, ?p0, True,
       (if \<not> stopped s then [Info_msg ''Stopping clocks to %s''] else [])
       @ [Ns_delay 1000000])"
    using assms(1,2) by (intro clock_step_gated) simp_all
  have "fst (clients_loop K (clients_in x) 0 ?p0 (the_heap s) (client (the_psl s)))
      = ?p0\<lparr>idle_cycles := PSL_IDLE_CYCLES K\<rparr>"
    using assms(3,4,5) by (intro clients_loop_psl_attach [of j]) simp_all
  then show "idle_cycles (the_psl (fst (snd (psl_iter K x s)))) = PSL_IDLE_CYCLES K"
    by (simp add: psl_iter_def Let_def cs case_prod_beta)
  show "fst (psl_iter K x s) = False"
    by (simp add: psl_iter_def Let_def cs case_prod_beta)
qed

lemma psl_loop_countdown:
  assumes "PSLSE_IDLE K \<noteq> PSLSE_DONE K"
    and "list_all (idle_input K (max_clients (the_psl s))) xs"
    and "int (length xs) \<le> idle_cycles (the_psl s)"
  shows "fst (psl_loop K xs s) = False
    \<and> idle_cycles (the_psl (fst (snd (psl_loop K xs s)))) = idle_cycles (the_psl s) - int (length xs)
    \<and> max_clients (the_psl (fst (snd (psl_loop K xs s)))) = max_clients (the_psl s)"
  using assms(2,3)
proof (induction xs arbitrary: s)
  case Nil
  then show ?case by simp
next
  case (Cons x xs)
  let ?s1 = "fst (snd (psl_iter K x s))"
  have x: "idle_input K (max_clients (the_psl s)) x"
    using Cons.prems(1) by simp
  have nd: "cur_state x \<noteq> PSLSE_DONE K"
    using x assms(1) by (simp add: idle_input_def)
  have nz: "idle_cycles (the_psl s) \<noteq> 0"
    using Cons.prems(2) by simp
  note it = psl_iter_idle [OF x nz]
  have rest: "list_all (idle_input K (max_clients (the_psl ?s1))) xs"
    using Cons.prems(1) it(3) by simp
  have len: "int (length xs) \<le> idle_cycles (the_psl ?s1)"
    using Cons.prems(2) it(2) by simp
  note ih = Cons.IH [OF rest len]
  show ?case
    using nd it ih by (simp add: case_prod_beta Let_def)
qed

lemma psl_loop_gated:
  assumes "PSLSE_IDLE K \<noteq> PSLSE_DONE K"
    and "list_all (idle_input K (max_clients (the_psl s))) xs"
    and "idle_cycles (the_psl s) = 0"
  shows "fst (psl_loop K xs s) = False
    \<and> idle_cycles (the_psl (fst (snd (psl_loop K xs s)))) = 0
    \<and> Signal_afu_model \<notin> set (snd (snd (psl_loop K xs s)))"
  using assms(2,3)
proof (induction xs arbitrary: s)
  case Nil
  then show ?case by simp
next
  case (Cons x xs)
  let ?s1 = "fst (snd (psl_iter K x s))"
  have x: "idle_input K (max_clients (the_psl s)) x"
    using Cons.prems(1) by simp
  have nd: "cur_state x \<noteq> PSLSE_DONE K"
    using x assms(1) by (simp add: idle_input_def)
  note it = psl_iter_gated [OF x Cons.prems(2)]
  have rest: "list_all (idle_input K (max_clients (the_psl ?s1))) xs"
    using Cons.prems(1) it(3) by simp
  note ih = Cons.IH [OF rest it(2)]
  show ?case
    using nd it ih by (simp add: case_prod_beta Let_def)
qed


lemma psl_iter_busy:
  assumes "cur_state x \<noteq> PSLSE_IDLE K" and "PSL_IDLE_CYCLES K \<noteq> 0"
  shows "Signal_afu_model \<in> set (snd (snd (psl_iter K x s)))"
proof -
  let ?p0 = "(the_psl s)\<lparr>state := cur_state x\<rparr>"
  have "Signal_afu_model \<in> set (snd (snd (snd (clock_step K x ?p0 (stopped s)))))"
    using assms by (intro clock_step_busy) simp_all
  then show ?thesis
    by (simp add: psl_iter_def Let_def case_prod_beta)
qed

lemma psl_loop_drains:
  assumes "PSLSE_IDLE K \<noteq> PSLSE_DONE K"
    and "list_all (idle_input K (max_clients (the_psl s))) xs"
    and "0 \<le> idle_cycles (the_psl s)"
    and "idle_cycles (the_psl s) \<le> int (length xs)"
  shows "fst (psl_loop K xs s) = False
    \<and> idle_cycles (the_psl (fst (snd (psl_loop K xs s)))) = 0"
  using assms(2,3,4)
proof (induction xs arbitrary: s)
  case Nil
  then show ?case by simp
next
  case (Cons x xs)
  show ?case
  proof (cases "idle_cycles (the_psl s) = 0")
    case True
    then show ?thesis
      using psl_loop_gated [OF assms(1) Cons.prems(1)] by simp
  next
    case False
    let ?s1 = "fst (snd (psl_iter K x s))"
    have x: "idle_input K (max_clients (the_psl s)) x"
      using Cons.prems(1) by simp
    have nd: "cur_state x \<noteq> PSLSE_DONE K"
      using x assms(1) by (simp add: idle_input_def)
    note it = psl_iter_idle [OF x False]
    have rest: "list_all (idle_input K (max_clients (the_psl ?s1))) xs"
      using Cons.prems(1) it(3) by simp
    have lo: "0 \<le> idle_cycles (the_psl ?s1)"
      using Cons.prems(2) False it(2) by simp
    have hi: "idle_cycles (the_psl ?s1) \<le> int (length xs)"
      using Cons.prems(3) it(2) by simp
    note ih = Cons.IH [OF rest lo hi]
    show ?thesis
      using nd it ih by (simp add: case_prod_beta Let_def)
  qed
qed

text \<open>
  Claim C2, amended. Take a session whose job and MMIO queues are empty and whose state
  reads IDLE (a state other than DONE) at the top of each iteration considered. An
  iteration in which the transport reports no error and no pass runs a successful attach
  clocks the AFU and leaves a countdown above zero one lower, so that a countdown of at
  least \<open>n\<close> is \<open>n\<close> lower after \<open>n\<close> such iterations in a row. After
  \<^verbatim>\<open>PSL_IDLE_CYCLES\<close> such iterations in a row, begun with any countdown from zero
  to the maximum, the countdown is zero. From then on every such iteration sleeps for
  1000000 ns, signals no clock and leaves the countdown at zero, whatever else the
  clients send. Two things restart the countdown: an iteration that finds the state not
  IDLE, which clocks the AFU again at once, and a successful attach of a slot in use. An
  iteration in which the transport reports an error leaves the loop with the countdown as
  it was.
\<close>

theorem clock_gating:
  assumes "PSLSE_IDLE K \<noteq> PSLSE_DONE K"
  shows "(idle_input K (max_clients (the_psl s)) x \<and> idle_cycles (the_psl s) \<noteq> 0 \<longrightarrow>
           fst (psl_iter K x s) = False
           \<and> idle_cycles (the_psl (fst (snd (psl_iter K x s)))) = idle_cycles (the_psl s) - 1
           \<and> Signal_afu_model \<in> set (snd (snd (psl_iter K x s))))
    \<and> (list_all (idle_input K (max_clients (the_psl s))) xs
         \<and> int (length xs) \<le> idle_cycles (the_psl s) \<longrightarrow>
           fst (psl_loop K xs s) = False
           \<and> idle_cycles (the_psl (fst (snd (psl_loop K xs s))))
               = idle_cycles (the_psl s) - int (length xs))
    \<and> (list_all (idle_input K (max_clients (the_psl s))) xs
         \<and> 0 \<le> idle_cycles (the_psl s) \<and> idle_cycles (the_psl s) \<le> PSL_IDLE_CYCLES K
         \<and> int (length xs) = PSL_IDLE_CYCLES K \<longrightarrow>
           fst (psl_loop K xs s) = False
           \<and> idle_cycles (the_psl (fst (snd (psl_loop K xs s)))) = 0)
    \<and> (idle_input K (max_clients (the_psl s)) x \<and> idle_cycles (the_psl s) = 0 \<longrightarrow>
           fst (psl_iter K x s) = False
           \<and> idle_cycles (the_psl (fst (snd (psl_iter K x s)))) = 0
           \<and> Signal_afu_model \<notin> set (snd (snd (psl_iter K x s)))
           \<and> Ns_delay 1000000 \<in> set (snd (snd (psl_iter K x s))))
    \<and> (list_all (idle_input K (max_clients (the_psl s))) xs \<and> idle_cycles (the_psl s) = 0 \<longrightarrow>
           fst (psl_loop K xs s) = False
           \<and> idle_cycles (the_psl (fst (snd (psl_loop K xs s)))) = 0
           \<and> Signal_afu_model \<notin> set (snd (snd (psl_loop K xs s))))
    \<and> (cur_state x \<noteq> PSLSE_IDLE K \<and> PSL_IDLE_CYCLES K \<noteq> 0 \<longrightarrow>
           Signal_afu_model \<in> set (snd (snd (psl_iter K x s))))
    \<and> (cur_state x = PSLSE_IDLE K \<and> idle_cycles (the_psl s) = 0
         \<and> j < max_clients (the_psl s) \<and> valid (client (the_psl s) ! j) \<noteq> 0
         \<and> attaches K (clients_in x j) \<longrightarrow>
           fst (psl_iter K x s) = False
           \<and> idle_cycles (the_psl (fst (snd (psl_iter K x s)))) = PSL_IDLE_CYCLES K)
    \<and> (cur_state x = PSLSE_IDLE K \<and> idle_cycles (the_psl s) \<noteq> 0 \<and> afu_events x < 0 \<longrightarrow>
           fst (psl_iter K x s) = True
           \<and> idle_cycles (the_psl (fst (snd (psl_iter K x s)))) = idle_cycles (the_psl s))"
proof (intro conjI impI)
  assume a: "idle_input K (max_clients (the_psl s)) x \<and> idle_cycles (the_psl s) \<noteq> 0"
  then have x: "idle_input K (max_clients (the_psl s)) x" and nz: "idle_cycles (the_psl s) \<noteq> 0"
    by simp_all
  show "fst (psl_iter K x s) = False"
    using x nz by (rule psl_iter_idle)
  show "idle_cycles (the_psl (fst (snd (psl_iter K x s)))) = idle_cycles (the_psl s) - 1"
    using x nz by (rule psl_iter_idle)
  show "Signal_afu_model \<in> set (snd (snd (psl_iter K x s)))"
    using x nz by (rule psl_iter_idle)
next
  assume a: "list_all (idle_input K (max_clients (the_psl s))) xs
         \<and> int (length xs) \<le> idle_cycles (the_psl s)"
  then have r: "fst (psl_loop K xs s) = False
    \<and> idle_cycles (the_psl (fst (snd (psl_loop K xs s)))) = idle_cycles (the_psl s) - int (length xs)
    \<and> max_clients (the_psl (fst (snd (psl_loop K xs s)))) = max_clients (the_psl s)"
    using assms by (intro psl_loop_countdown) simp_all
  show "fst (psl_loop K xs s) = False" using r by simp
  show "idle_cycles (the_psl (fst (snd (psl_loop K xs s))))
      = idle_cycles (the_psl s) - int (length xs)"
    using r by simp
next
  assume a: "list_all (idle_input K (max_clients (the_psl s))) xs
         \<and> 0 \<le> idle_cycles (the_psl s) \<and> idle_cycles (the_psl s) \<le> PSL_IDLE_CYCLES K
         \<and> int (length xs) = PSL_IDLE_CYCLES K"
  then have r: "fst (psl_loop K xs s) = False
    \<and> idle_cycles (the_psl (fst (snd (psl_loop K xs s)))) = 0"
    using assms by (intro psl_loop_drains) simp_all
  show "fst (psl_loop K xs s) = False" using r by simp
  show "idle_cycles (the_psl (fst (snd (psl_loop K xs s)))) = 0" using r by simp
next
  assume a: "idle_input K (max_clients (the_psl s)) x \<and> idle_cycles (the_psl s) = 0"
  then have x: "idle_input K (max_clients (the_psl s)) x" and z: "idle_cycles (the_psl s) = 0"
    by simp_all
  show "fst (psl_iter K x s) = False"
    using x z by (rule psl_iter_gated)
  show "idle_cycles (the_psl (fst (snd (psl_iter K x s)))) = 0"
    using x z by (rule psl_iter_gated)
  show "Signal_afu_model \<notin> set (snd (snd (psl_iter K x s)))"
    using x z by (rule psl_iter_gated)
  show "Ns_delay 1000000 \<in> set (snd (snd (psl_iter K x s)))"
    using x z by (rule psl_iter_gated)
next
  assume a: "list_all (idle_input K (max_clients (the_psl s))) xs \<and> idle_cycles (the_psl s) = 0"
  then have r: "fst (psl_loop K xs s) = False
    \<and> idle_cycles (the_psl (fst (snd (psl_loop K xs s)))) = 0
    \<and> Signal_afu_model \<notin> set (snd (snd (psl_loop K xs s)))"
    using assms by (intro psl_loop_gated) simp_all
  show "fst (psl_loop K xs s) = False" using r by simp
  show "idle_cycles (the_psl (fst (snd (psl_loop K xs s)))) = 0" using r by simp
  show "Signal_afu_model \<notin> set (snd (snd (psl_loop K xs s)))" using r by simp
next
  assume "cur_state x \<noteq> PSLSE_IDLE K \<and> PSL_IDLE_CYCLES K \<noteq> 0"
  then show "Signal_afu_model \<in> set (snd (snd (psl_iter K x s)))"
    by (intro psl_iter_busy) simp_all
next
  assume a: "cur_state x = PSLSE_IDLE K \<and> idle_cycles (the_psl s) = 0
         \<and> j < max_clients (the_psl s) \<and> valid (client (the_psl s) ! j) \<noteq> 0
         \<and> attaches K (clients_in x j)"
  show "fst (psl_iter K x s) = False"
    using a by (intro psl_iter_attach [of x K s j]) simp_all
  show "idle_cycles (the_psl (fst (snd (psl_iter K x s)))) = PSL_IDLE_CYCLES K"
    using a by (intro psl_iter_attach [of x K s j]) simp_all
next
  assume a: "cur_state x = PSLSE_IDLE K \<and> idle_cycles (the_psl s) \<noteq> 0 \<and> afu_events x < 0"
  show "fst (psl_iter K x s) = True"
    using a by (intro psl_iter_transport) simp_all
  show "idle_cycles (the_psl (fst (snd (psl_iter K x s)))) = idle_cycles (the_psl s)"
    using a by (intro psl_iter_transport) simp_all
qed

theorem clock_gating_witness:
  "PSLSE_IDLE example_config \<noteq> PSLSE_DONE example_config
   \<and> max_clients (the_psl fresh_state) = 1
   \<and> list_all (idle_input example_config 1) (replicate 20 (idle_iter silent))
   \<and> idle_input example_config 1 (idle_iter (sends 7))
   \<and> idle_cycles (the_psl fresh_state) = PSL_IDLE_CYCLES example_config
   \<and> idle_cycles (the_psl (fst (snd (psl_iter example_config (idle_iter silent) fresh_state))))
       = 19
   \<and> idle_cycles (the_psl (fst (snd (psl_loop example_config (replicate 20 (idle_iter silent))
        fresh_state)))) = 0
   \<and> idle_cycles (the_psl gated_state) = 0
   \<and> Signal_afu_model \<notin> set (snd (snd (psl_iter example_config (idle_iter (sends 7))
        gated_state)))
   \<and> Ns_delay 1000000 \<in> set (snd (snd (psl_iter example_config (idle_iter (sends 7))
        gated_state)))
   \<and> Signal_afu_model \<in> set (snd (snd (psl_iter example_config
        ((idle_iter silent)\<lparr>cur_state := 1\<rparr>) gated_state)))
   \<and> attaches example_config (attaching_input)
   \<and> idle_cycles (the_psl (fst (snd (psl_iter example_config (idle_iter attaching_input)
        gated_state)))) = 20
   \<and> fst (psl_iter example_config ((idle_iter silent)\<lparr>afu_events := - 1\<rparr>) fresh_state)
   \<and> idle_cycles (the_psl (fst (snd (psl_iter example_config
        ((idle_iter silent)\<lparr>afu_events := - 1\<rparr>) fresh_state)))) = 20"
proof -
  have k: "PSLSE_IDLE example_config \<noteq> PSLSE_DONE example_config"
    "PSL_IDLE_CYCLES example_config = 20" "PSLSE_IDLE example_config = 0"
    by (simp_all add: example_config_def)
  have n: "max_clients (the_psl fresh_state) = 1" "max_clients (the_psl gated_state) = 1"
    "idle_cycles (the_psl fresh_state) = 20" "idle_cycles (the_psl gated_state) = 0"
    by (simp_all add: fresh_state_def gated_state_def example_psl_def)
  have i: "idle_input example_config 1 (idle_iter silent)"
    by (simp add: idle_input_def idle_iter_def silent_def example_config_def attaches_def)
  have i7: "idle_input example_config 1 (idle_iter (sends 7))"
    by (simp add: idle_input_def idle_iter_def sends_def silent_def example_config_def
        attaches_def)
  have all_idle: "list_all (idle_input example_config 1) (replicate 20 (idle_iter silent))"
    using i by (simp add: list_all_iff)
  have b: "cur_state ((idle_iter silent)\<lparr>cur_state := 1\<rparr>) \<noteq> PSLSE_IDLE example_config"
    by (simp add: k)
  have at: "attaches example_config attaching_input"
    by (simp add: attaches_def attaching_input_def sends_def silent_def example_config_def)
  have at': "cur_state (idle_iter attaching_input) = PSLSE_IDLE example_config
      \<and> idle_cycles (the_psl gated_state) = 0 \<and> 0 < max_clients (the_psl gated_state)
      \<and> valid (client (the_psl gated_state) ! 0) \<noteq> 0
      \<and> attaches example_config (clients_in (idle_iter attaching_input) 0)"
    using at by (simp add: idle_iter_def k gated_state_def example_psl_def example_client_def)
  have tr: "cur_state ((idle_iter silent)\<lparr>afu_events := - 1\<rparr>) = PSLSE_IDLE example_config
      \<and> idle_cycles (the_psl fresh_state) \<noteq> 0
      \<and> afu_events ((idle_iter silent)\<lparr>afu_events := - 1\<rparr>) < 0"
    by (simp add: idle_iter_def k n)
  note t1 = clock_gating [OF k(1), of fresh_state "idle_iter silent"
      "replicate 20 (idle_iter silent)" 0]
  note t2 = clock_gating [OF k(1), of gated_state "idle_iter (sends 7)" "[]" 0]
  note t3 = clock_gating [OF k(1), of gated_state "(idle_iter silent)\<lparr>cur_state := 1\<rparr>" "[]" 0]
  note t4 = clock_gating [OF k(1), of gated_state "idle_iter attaching_input" "[]" 0]
  note t5 = clock_gating [OF k(1), of fresh_state "(idle_iter silent)\<lparr>afu_events := - 1\<rparr>"
      "[]" 0]
  have r1: "idle_cycles (the_psl (fst (snd (psl_iter example_config (idle_iter silent)
      fresh_state)))) = idle_cycles (the_psl fresh_state) - 1"
    using t1 i n(1,3) by simp
  have r2: "idle_cycles (the_psl (fst (snd (psl_loop example_config
      (replicate 20 (idle_iter silent)) fresh_state)))) = 0"
    using t1 all_idle n(1,3) k(2) by (simp del: psl_loop.simps replicate.simps)
  have r3: "Signal_afu_model \<notin> set (snd (snd (psl_iter example_config (idle_iter (sends 7))
        gated_state)))
      \<and> Ns_delay 1000000 \<in> set (snd (snd (psl_iter example_config (idle_iter (sends 7))
        gated_state)))"
    using t2 i7 n(2,4) by simp
  have r4: "Signal_afu_model \<in> set (snd (snd (psl_iter example_config
        ((idle_iter silent)\<lparr>cur_state := 1\<rparr>) gated_state)))"
    using t3 b k(2) by simp
  have r5: "idle_cycles (the_psl (fst (snd (psl_iter example_config
      (idle_iter attaching_input) gated_state)))) = PSL_IDLE_CYCLES example_config"
    using t4 at' by blast
  have r6: "fst (psl_iter example_config ((idle_iter silent)\<lparr>afu_events := - 1\<rparr>) fresh_state)
      \<and> idle_cycles (the_psl (fst (snd (psl_iter example_config
        ((idle_iter silent)\<lparr>afu_events := - 1\<rparr>) fresh_state))))
        = idle_cycles (the_psl fresh_state)"
    using t5 tr by blast
  show ?thesis
    using k(1) n(1,3,4) all_idle i7 at r1 r2 r3 r4 r5 r6 unfolding k(2) by simp
qed

text \<open>
  Claim C2, as stated, fails twice. The session below is IDLE with empty queues and a
  countdown of 20; the transport reports an error: the iteration leaves the loop and the
  countdown is still 20, not 19. The gated session below reads MMIO_READ64 from its
  client and hands it to the MMIO subsystem: this client activity does not reset the
  countdown, which stays at zero, and the iteration sleeps without clocking.
\<close>

theorem clock_gating_counterexample:
  "cur_state ((idle_iter silent)\<lparr>afu_events := - 1\<rparr>) = PSLSE_IDLE example_config
   \<and> job_idle ((idle_iter silent)\<lparr>afu_events := - 1\<rparr>)
   \<and> mmio_idle ((idle_iter silent)\<lparr>afu_events := - 1\<rparr>)
   \<and> idle_cycles (the_psl fresh_state) = 20
   \<and> psl_iter example_config ((idle_iter silent)\<lparr>afu_events := - 1\<rparr>) fresh_state =
       (True, fresh_state,
        [Mutex_lock Psl_lock, Signal_afu_model, Get_afu_events, Mutex_unlock Psl_lock])
   \<and> hdr (sends 7) = Some (PSLSE_MMIO_READ64 example_config)
   \<and> idle_cycles (the_psl gated_state) = 0
   \<and> psl_iter example_config (idle_iter (sends 7)) gated_state =
       (False,
        gated_state\<lparr>the_psl := (the_psl gated_state)
           \<lparr>client := [example_client\<lparr>cl_idle_cycles := 19\<rparr>]\<rparr>, stopped := True\<rparr>,
        [Info_msg ''Stopping clocks to %s'', Ns_delay 1000000, Get_bytes 7 1 1,
         Handle_mmio 0 True True, Client_cmd 0])"
  by (simp add: eval_defs fresh_state_def gated_state_def)

subsection \<open>No countdown is negative\<close>

lemma handle_client_nonneg:
  assumes "0 \<le> PSL_IDLE_CYCLES K" and "0 \<le> cl_idle_cycles c"
  shows "0 \<le> cl_idle_cycles (fst (snd (handle_client K ci p c h)))"
proof (cases "poll_ready ci")
  case False
  then show ?thesis
    using assms by (simp add: handle_client_nopoll handle_mmio_done_step_def)
next
  case True
  show ?thesis
  proof (cases "hdr ci")
    case None
    with True show ?thesis by (simp add: handle_client_hangup free_client)
  next
    case (Some b)
    with True show ?thesis
      using assms(1) by (simp add: handle_client_read dispatch_client)
  qed
qed

lemma client_iter_nonneg:
  assumes "0 \<le> PSL_IDLE_CYCLES K" and "0 \<le> cl_idle_cycles c"
  shows "0 \<le> cl_idle_cycles (fst (snd (client_iter K ci i p c h)))"
proof (cases "valid c = 0")
  case True
  then show ?thesis using assms(2) by (simp add: client_iter_def)
next
  case False
  have "0 \<le> cl_idle_cycles (fst (snd (handle_client K ci p c h)))"
    using assms by (rule handle_client_nonneg)
  then show ?thesis
    using False assms(1) by (simp add: client_iter_unfold Let_def free_client)
qed

lemma client_iter_psl_nonneg:
  assumes "0 \<le> PSL_IDLE_CYCLES K" and "0 \<le> idle_cycles p"
  shows "0 \<le> idle_cycles (fst (client_iter K ci i p c h))"
  using assms by (simp add: client_iter_psl)

lemma clients_loop_nonneg:
  assumes "0 \<le> PSL_IDLE_CYCLES K" and "0 \<le> idle_cycles p"
    and "list_all (\<lambda>c. 0 \<le> cl_idle_cycles c) cs"
  shows "0 \<le> idle_cycles (fst (clients_loop K cin i p h cs))
    \<and> list_all (\<lambda>c. 0 \<le> cl_idle_cycles c) (fst (snd (clients_loop K cin i p h cs)))"
  using assms(2,3)
proof (induction cs arbitrary: i p h)
  case Nil
  then show ?case by simp
next
  case (Cons c cs)
  let ?r = "client_iter K (cin i) i p c h"
  have c: "0 \<le> cl_idle_cycles c" and cs: "list_all (\<lambda>c. 0 \<le> cl_idle_cycles c) cs"
    using Cons.prems(2) by simp_all
  have p1: "0 \<le> idle_cycles (fst ?r)"
    using assms(1) Cons.prems(1) by (rule client_iter_psl_nonneg)
  have c1: "0 \<le> cl_idle_cycles (fst (snd ?r))"
    using assms(1) c by (rule client_iter_nonneg)
  note ih = Cons.IH [OF p1 cs, of "Suc i" "fst (snd (snd ?r))"]
  show ?case
    using c1 ih by (simp add: case_prod_beta Let_def)
qed

lemma clock_step_nonneg:
  assumes "0 \<le> PSL_IDLE_CYCLES K" and "0 \<le> idle_cycles p"
  shows "0 \<le> idle_cycles (fst (snd (clock_step K x p st)))"
    and "client (fst (snd (clock_step K x p st))) = client p"
  using assms by (auto simp add: clock_step_def loop_top_def Let_def)

lemma psl_iter_nonneg:
  assumes "0 \<le> PSL_IDLE_CYCLES K" and "nonneg_idle (the_psl s)"
  shows "nonneg_idle (the_psl (fst (snd (psl_iter K x s))))"
proof -
  let ?p0 = "(the_psl s)\<lparr>state := cur_state x\<rparr>"
  let ?r = "clock_step K x ?p0 (stopped s)"
  let ?p1 = "fst (snd ?r)"
  have p0: "0 \<le> idle_cycles ?p0" "list_all (\<lambda>c. 0 \<le> cl_idle_cycles c) (client ?p0)"
    using assms(2) by (simp_all add: nonneg_idle_def)
  have p1: "0 \<le> idle_cycles ?p1"
    using assms(1) p0(1) by (rule clock_step_nonneg)
  have cl: "client ?p1 = client ?p0"
    using assms(1) p0(1) by (rule clock_step_nonneg)
  have cs: "list_all (\<lambda>c. 0 \<le> cl_idle_cycles c) (client ?p1)"
    using p0(2) cl by simp
  note loop = clients_loop_nonneg [OF assms(1) p1 cs, of "clients_in x" 0 "the_heap s"]
  show ?thesis
  proof (cases "fst ?r")
    case True
    then show ?thesis
      using p1 cs by (simp add: psl_iter_def Let_def case_prod_beta nonneg_idle_def)
  next
    case False
    then show ?thesis
      using loop by (simp add: psl_iter_def Let_def case_prod_beta nonneg_idle_def)
  qed
qed

lemma psl_loop_nonneg:
  assumes "0 \<le> PSL_IDLE_CYCLES K" and "nonneg_idle (the_psl s)"
  shows "nonneg_idle (the_psl (fst (snd (psl_loop K xs s))))"
  using assms(2)
proof (induction xs arbitrary: s)
  case Nil
  then show ?case by simp
next
  case (Cons x xs)
  have it: "nonneg_idle (the_psl (fst (snd (psl_iter K x s))))"
    using assms(1) Cons.prems by (rule psl_iter_nonneg)
  have stop: "nonneg_idle ((the_psl s)\<lparr>state := v\<rparr>)" for v
    using Cons.prems by (simp add: nonneg_idle_def)
  show ?case
    using it stop Cons.IH [OF it] by (simp add: case_prod_beta Let_def)
qed


text \<open>
  Claim C7. With a countdown maximum that is not negative, the loop keeps the session's
  countdown and every slot's countdown at zero or above: after any number of
  iterations, after one iteration, and after each of its parts (the clocking half, the
  dispatcher, the pass over one slot). The session's countdown is set to
  \<^verbatim>\<open>PSL_IDLE_CYCLES\<close> by a successful attach and by the top of an iteration that
  finds the state not IDLE; a client's countdown is set to it by the dispatcher when a
  byte was read and when an MMIO access was outstanding (unless the dispatcher releases
  the client in the same pass because its read failed).
\<close>

theorem countdowns_never_negative:
  assumes "0 \<le> PSL_IDLE_CYCLES K"
  shows "(nonneg_idle (the_psl s) \<longrightarrow>
           nonneg_idle (the_psl (fst (snd (psl_loop K xs s))))
           \<and> nonneg_idle (the_psl (fst (snd (psl_iter K x s)))))
    \<and> (0 \<le> idle_cycles p \<and> 0 \<le> cl_idle_cycles c \<longrightarrow>
           0 \<le> idle_cycles (fst (snd (clock_step K x p st)))
           \<and> 0 \<le> idle_cycles (fst (client_iter K ci i p c h))
           \<and> 0 \<le> cl_idle_cycles (fst (snd (client_iter K ci i p c h)))
           \<and> 0 \<le> cl_idle_cycles (fst (snd (handle_client K ci p c h))))
    \<and> (wed_buf ai \<noteq> None \<and> job_added ai \<longrightarrow>
           idle_cycles (fst (attach K ai p c)) = PSL_IDLE_CYCLES K)
    \<and> (state p \<noteq> PSLSE_IDLE K \<longrightarrow>
           idle_cycles (fst (loop_top K p st)) = PSL_IDLE_CYCLES K)
    \<and> (poll_ready ci \<and> hdr ci = Some b \<longrightarrow>
           cl_idle_cycles (fst (snd (handle_client K ci p c h))) = PSL_IDLE_CYCLES K)
    \<and> (mmio_access c \<noteq> None \<longrightarrow>
           cl_idle_cycles (fst (handle_mmio_done_step K ci c)) = PSL_IDLE_CYCLES K
           \<and> (\<not> (poll_ready ci \<and> hdr ci = None) \<longrightarrow>
                cl_idle_cycles (fst (snd (handle_client K ci p c h))) = PSL_IDLE_CYCLES K))"
proof (intro conjI impI)
  assume inv: "nonneg_idle (the_psl s)"
  show "nonneg_idle (the_psl (fst (snd (psl_loop K xs s))))"
    using assms inv by (rule psl_loop_nonneg)
  show "nonneg_idle (the_psl (fst (snd (psl_iter K x s))))"
    using assms inv by (rule psl_iter_nonneg)
next
  assume a: "0 \<le> idle_cycles p \<and> 0 \<le> cl_idle_cycles c"
  show "0 \<le> idle_cycles (fst (snd (clock_step K x p st)))"
    using assms a by (intro clock_step_nonneg) simp_all
  show "0 \<le> idle_cycles (fst (client_iter K ci i p c h))"
    using assms a by (intro client_iter_psl_nonneg) simp_all
  show "0 \<le> cl_idle_cycles (fst (snd (client_iter K ci i p c h)))"
    using assms a by (intro client_iter_nonneg) simp_all
  show "0 \<le> cl_idle_cycles (fst (snd (handle_client K ci p c h)))"
    using assms a by (intro handle_client_nonneg) simp_all
next
  assume "wed_buf ai \<noteq> None \<and> job_added ai"
  then show "idle_cycles (fst (attach K ai p c)) = PSL_IDLE_CYCLES K"
    by (simp add: attach_psl)
next
  assume "state p \<noteq> PSLSE_IDLE K"
  then show "idle_cycles (fst (loop_top K p st)) = PSL_IDLE_CYCLES K"
    by (simp add: loop_top_def)
next
  assume "poll_ready ci \<and> hdr ci = Some b"
  then show "cl_idle_cycles (fst (snd (handle_client K ci p c h))) = PSL_IDLE_CYCLES K"
    by (simp add: handle_client_read dispatch_client)
next
  assume m: "mmio_access c \<noteq> None"
  then show m1: "cl_idle_cycles (fst (handle_mmio_done_step K ci c)) = PSL_IDLE_CYCLES K"
    by (simp add: handle_mmio_done_step_def)
  assume n: "\<not> (poll_ready ci \<and> hdr ci = None)"
  show "cl_idle_cycles (fst (snd (handle_client K ci p c h))) = PSL_IDLE_CYCLES K"
  proof (cases "poll_ready ci")
    case False
    then show ?thesis using m1 by (simp add: handle_client_nopoll)
  next
    case True
    with n obtain b' where "hdr ci = Some b'" by auto
    with True show ?thesis by (simp add: handle_client_read dispatch_client)
  qed
qed

theorem countdowns_never_negative_witness:
  "0 \<le> PSL_IDLE_CYCLES example_config \<and> nonneg_idle (the_psl clocking_state)
   \<and> nonneg_idle (the_psl (fst (snd (psl_loop example_config
        [idle_iter (sends 1), idle_iter silent] clocking_state))))
   \<and> idle_cycles (fst (attach example_config
        \<lparr>wed_buf = Some [1, 0, 0, 0, 0, 0, 0, 0], job_added = True\<rparr> example_psl
        example_client)) = 20
   \<and> idle_cycles (fst (loop_top example_config (example_psl\<lparr>state := 1\<rparr>) True)) = 20
   \<and> cl_idle_cycles (fst (snd (handle_client example_config (sends 255) example_psl
        example_client example_heap))) = 20
   \<and> cl_idle_cycles (fst (handle_mmio_done_step example_config silent
        (example_client\<lparr>mmio_access := Some 9\<rparr>))) = 20
   \<and> cl_idle_cycles (fst (snd (handle_client example_config silent example_psl
        (example_client\<lparr>mmio_access := Some 9\<rparr>) example_heap))) = 20"
proof -
  have k: "0 \<le> PSL_IDLE_CYCLES example_config" "PSL_IDLE_CYCLES example_config = 20"
    "PSLSE_IDLE example_config = 0"
    by (simp_all add: example_config_def)
  have inv: "nonneg_idle (the_psl clocking_state)"
    by (simp add: nonneg_idle_def clocking_state_def example_psl_def example_client_def)
  have p: "0 \<le> idle_cycles example_psl \<and> 0 \<le> cl_idle_cycles example_client"
    "state (example_psl\<lparr>state := 1\<rparr>) \<noteq> PSLSE_IDLE example_config"
    by (simp_all add: example_psl_def example_client_def k)
  have i: "poll_ready (sends 255) \<and> hdr (sends 255) = Some 255"
    "\<not> (poll_ready silent \<and> hdr silent = None)"
    "mmio_access (example_client\<lparr>mmio_access := Some 9\<rparr>) \<noteq> None"
    by (simp_all add: sends_def silent_def)
  have a: "wed_buf \<lparr>wed_buf = Some [1, 0, 0, 0, 0, 0, 0, 0 :: byte], job_added = True\<rparr> \<noteq> None
      \<and> job_added \<lparr>wed_buf = Some [1, 0, 0, 0, 0, 0, 0, 0 :: byte], job_added = True\<rparr>"
    by simp
  note t1 = countdowns_never_negative [OF k(1), of clocking_state
      "[idle_iter (sends 1), idle_iter silent]" "idle_iter silent" "example_psl\<lparr>state := 1\<rparr>"
      example_client True "sends 255" 0 example_heap
      "\<lparr>wed_buf = Some [1, 0, 0, 0, 0, 0, 0, 0], job_added = True\<rparr>" 255]
  note t2 = countdowns_never_negative [OF k(1), of clocking_state "[]" "idle_iter silent"
      example_psl "example_client\<lparr>mmio_access := Some 9\<rparr>" True silent 0
      example_heap "\<lparr>wed_buf = Some [1, 0, 0, 0, 0, 0, 0, 0], job_added = True\<rparr>" 0]
  note t3 = countdowns_never_negative [OF k(1), of clocking_state "[]" "idle_iter silent"
      example_psl example_client True "sends 255" 0 example_heap
      "\<lparr>wed_buf = Some [1, 0, 0, 0, 0, 0, 0, 0], job_added = True\<rparr>" 255]
  have r1: "nonneg_idle (the_psl (fst (snd (psl_loop example_config
        [idle_iter (sends 1), idle_iter silent] clocking_state))))"
    using t1 inv by blast
  have r2: "idle_cycles (fst (attach example_config
        \<lparr>wed_buf = Some [1, 0, 0, 0, 0, 0, 0, 0], job_added = True\<rparr> example_psl
        example_client)) = PSL_IDLE_CYCLES example_config"
    using t3 a by blast
  have r3: "idle_cycles (fst (loop_top example_config (example_psl\<lparr>state := 1\<rparr>) True))
      = PSL_IDLE_CYCLES example_config"
    using t1 p(2) by blast
  have r4: "cl_idle_cycles (fst (handle_mmio_done_step example_config silent
        (example_client\<lparr>mmio_access := Some 9\<rparr>))) = PSL_IDLE_CYCLES example_config"
    using t2 i(3) by blast
  have r5: "cl_idle_cycles (fst (snd (handle_client example_config silent example_psl
        (example_client\<lparr>mmio_access := Some 9\<rparr>) example_heap)))
      = PSL_IDLE_CYCLES example_config"
    using t2 i(2,3) by blast
  have r6: "cl_idle_cycles (fst (snd (handle_client example_config (sends 255)
        example_psl example_client example_heap))) = PSL_IDLE_CYCLES example_config"
    using t3 i(1) by blast
  show ?thesis
    using k(1) inv r1 r2 r3 r4 r5 r6 unfolding k(2) by blast
qed

subsection \<open>Session creation\<close>

lemma bad_digit_iff: "\<not> bad_digit c \<longleftrightarrow> c \<in> set ''0123''"
proof
  assume "\<not> bad_digit c"
  then have "48 \<le> (of_char c :: nat)" and "(of_char c :: nat) \<le> 51"
    by (simp_all add: bad_digit_def)
  then have "(of_char c :: nat) = of_char CHR ''0'' \<or> (of_char c :: nat) = of_char CHR ''1''
      \<or> (of_char c :: nat) = of_char CHR ''2'' \<or> (of_char c :: nat) = of_char CHR ''3''"
    by auto
  then have "c = CHR ''0'' \<or> c = CHR ''1'' \<or> c = CHR ''2'' \<or> c = CHR ''3''"
    unfolding of_char_eq_iff .
  then show "c \<in> set ''0123''" by auto
next
  assume "c \<in> set ''0123''"
  then show "\<not> bad_digit c" by (auto simp add: bad_digit_def)
qed

lemma length_six:
  assumes "length xs = 6"
  obtains a b c d e f where "xs = [a, b, c, d, e, f]"
  using assms by (auto simp add: eval_nat_numeral length_Suc_conv)

lemma name_accepted_iff:
  "name_accepted ident \<longleftrightarrow>
     length ident = 6 \<and> take 3 ident = ''afu'' \<and> ident ! 4 = CHR ''.''
     \<and> ident ! 3 \<in> set ''0123'' \<and> ident ! 5 \<in> set ''0123''"
  unfolding name_accepted_def bad_digit_iff by (auto simp add: bad_name_def)

lemma name_accepted_names: "name_accepted ident \<longleftrightarrow> ident \<in> set afu_names"
proof
  assume "name_accepted ident"
  then have n: "length ident = 6" "take 3 ident = ''afu''" "ident ! 4 = CHR ''.''"
    "ident ! 3 \<in> set ''0123''" "ident ! 5 \<in> set ''0123''"
    by (simp_all add: name_accepted_iff)
  from n(1) obtain a b c d e f where i: "ident = [a, b, c, d, e, f]"
    by (rule length_six)
  show "ident \<in> set afu_names"
    using n(2-5) unfolding i by (auto simp add: afu_names_def)
next
  assume "ident \<in> set afu_names"
  then show "name_accepted ident"
    by (auto simp add: afu_names_def name_accepted_iff)
qed


lemma init_subsystems_result:
  "fst (init_subsystems K ii a p r es) =
     (if job_init ii \<noteq> None \<and> mmio_init ii \<noteq> None \<and> cmd_init ii \<noteq> None
         \<and> aux1_change ii = PSL_SUCCESS K \<and> pthread_create ii = 0
      then Returned 0 else Returned (- 1))"
  by (simp add: init_subsystems_def Let_def split: option.splits)

lemma init_subsystems_registry:
  "fst (snd (init_subsystems K ii a p r es)) =
     (if fst (init_subsystems K ii a p r es) = Returned 0
      then add_psl a (p\<lparr>job_h := job_init ii, mmio_h := mmio_init ii, cmd_h := cmd_init ii\<rparr>) r
      else r)"
  by (simp add: init_subsystems_def Let_def split: option.splits)

lemma add_psl_head:
  "head (add_psl a p r) = Some a"
  "next_psl (sessions (add_psl a p r) a) = head r"
  by (simp_all add: add_psl_def Let_def split: option.splits)

text \<open>
  What holds of the name tests. A name passes them exactly when it is one of the 16
  names \<^verbatim>\<open>afuM.N\<close>. A name of the wrong length, prefix or separator gives -1, the
  registry as it was and, once the session record is allocated, the warning about the
  name and the release of that record. For a name that passes, with the four allocations
  succeeding, the call returns 0 exactly when the connection to the AFU, the three
  subsystem initialisations, the credit setting and the thread creation all succeed; it
  then makes the new session the head of the registry, in front of the old head;
  otherwise it returns -1 and leaves the registry as it was.
\<close>

lemma psl_init_bad_name:
  assumes "bad_name ident"
  shows "fst (psl_init K ii r ident hn pn) = Returned (- 1)"
    and "fst (snd (psl_init K ii r ident hn pn)) = r"
    and "malloc_psl ii = Some a \<Longrightarrow>
         snd (snd (psl_init K ii r ident hn pn)) =
           [Warn_msg ''Invalid afu name: %s'', Free_mem a]"
  using assms
  by (auto simp add: psl_init_def init_fail_def zero_psl_def opt_free_def str_free_def
      split: option.splits)

lemma psl_init_accepts:
  assumes "name_accepted ident" and "malloc_psl ii = Some a" and "malloc_name ii \<noteq> None"
    and "malloc_host ii \<noteq> None" and "malloc_afu_event ii \<noteq> None"
  shows "fst (psl_init K ii r ident hn pn) =
           (if afu_connect ii = PSL_SUCCESS K \<and> job_init ii \<noteq> None \<and> mmio_init ii \<noteq> None
               \<and> cmd_init ii \<noteq> None \<and> aux1_change ii = PSL_SUCCESS K
               \<and> pthread_create ii = 0
            then Returned 0 else Returned (- 1))"
    and "fst (psl_init K ii r ident hn pn) \<noteq> Returned 0 \<Longrightarrow>
         fst (snd (psl_init K ii r ident hn pn)) = r"
    and "fst (psl_init K ii r ident hn pn) = Returned 0 \<Longrightarrow>
         head (fst (snd (psl_init K ii r ident hn pn))) = Some a
         \<and> next_psl (sessions (fst (snd (psl_init K ii r ident hn pn))) a) = head r"
  using assms
  by (auto simp add: psl_init_def name_accepted_def Let_def init_subsystems_result
      init_subsystems_registry add_psl_head split: option.splits if_splits)

lemma psl_init_name_check:
  "(name_accepted ident \<longleftrightarrow>
      length ident = 6 \<and> take 3 ident = ''afu'' \<and> ident ! 4 = CHR ''.''
      \<and> ident ! 3 \<in> set ''0123'' \<and> ident ! 5 \<in> set ''0123'')
   \<and> (name_accepted ident \<longleftrightarrow> ident \<in> set afu_names)
   \<and> (name_accepted ident \<and> malloc_psl ii = Some a \<and> malloc_name ii \<noteq> None
        \<and> malloc_host ii \<noteq> None \<and> malloc_afu_event ii \<noteq> None \<longrightarrow>
        (fst (psl_init K ii r ident hn pn) = Returned 0 \<longleftrightarrow>
           afu_connect ii = PSL_SUCCESS K \<and> job_init ii \<noteq> None \<and> mmio_init ii \<noteq> None
           \<and> cmd_init ii \<noteq> None \<and> aux1_change ii = PSL_SUCCESS K \<and> pthread_create ii = 0)
        \<and> (fst (psl_init K ii r ident hn pn) = Returned 0 \<longrightarrow>
             head (fst (snd (psl_init K ii r ident hn pn))) = Some a
             \<and> next_psl (sessions (fst (snd (psl_init K ii r ident hn pn))) a) = head r)
        \<and> (fst (psl_init K ii r ident hn pn) \<noteq> Returned 0 \<longrightarrow>
             fst (psl_init K ii r ident hn pn) = Returned (- 1)
             \<and> fst (snd (psl_init K ii r ident hn pn)) = r))"
proof (intro conjI impI)
  show "name_accepted ident \<longleftrightarrow>
      length ident = 6 \<and> take 3 ident = ''afu'' \<and> ident ! 4 = CHR ''.''
      \<and> ident ! 3 \<in> set ''0123'' \<and> ident ! 5 \<in> set ''0123''"
    by (rule name_accepted_iff)
  show "name_accepted ident \<longleftrightarrow> ident \<in> set afu_names"
    by (rule name_accepted_names)
next
  assume ok: "name_accepted ident \<and> malloc_psl ii = Some a \<and> malloc_name ii \<noteq> None
        \<and> malloc_host ii \<noteq> None \<and> malloc_afu_event ii \<noteq> None"
  then have res: "fst (psl_init K ii r ident hn pn) =
           (if afu_connect ii = PSL_SUCCESS K \<and> job_init ii \<noteq> None \<and> mmio_init ii \<noteq> None
               \<and> cmd_init ii \<noteq> None \<and> aux1_change ii = PSL_SUCCESS K
               \<and> pthread_create ii = 0
            then Returned 0 else Returned (- 1))"
    by (intro psl_init_accepts) simp_all
  show "fst (psl_init K ii r ident hn pn) = Returned 0 \<longleftrightarrow>
           afu_connect ii = PSL_SUCCESS K \<and> job_init ii \<noteq> None \<and> mmio_init ii \<noteq> None
           \<and> cmd_init ii \<noteq> None \<and> aux1_change ii = PSL_SUCCESS K \<and> pthread_create ii = 0"
    unfolding res by simp
  {
    assume z: "fst (psl_init K ii r ident hn pn) = Returned 0"
    have h: "head (fst (snd (psl_init K ii r ident hn pn))) = Some a
         \<and> next_psl (sessions (fst (snd (psl_init K ii r ident hn pn))) a) = head r"
      using ok z by (intro psl_init_accepts) simp_all
    show "head (fst (snd (psl_init K ii r ident hn pn))) = Some a" using h by simp
    show "next_psl (sessions (fst (snd (psl_init K ii r ident hn pn))) a) = head r"
      using h by simp
  }
  {
    assume nz: "fst (psl_init K ii r ident hn pn) \<noteq> Returned 0"
    show "fst (psl_init K ii r ident hn pn) = Returned (- 1)"
      using nz unfolding res by (simp split: if_splits)
    show "fst (snd (psl_init K ii r ident hn pn)) = r"
      using ok nz by (intro psl_init_accepts) simp_all
  }
qed

lemma psl_init_digit_fault:
  assumes "\<not> bad_name ident" and "bad_digit (ident ! 3) \<or> bad_digit (ident ! 5)"
    and "malloc_psl ii = Some a"
  shows "fst (psl_init K ii r ident hn pn) = Undefined"
    and "snd (snd (psl_init K ii r ident hn pn)) =
           [Warn_msg_char (if bad_digit (ident ! 3) then ''Invalid afu major: %s''
                           else ''Invalid afu minor: %s'') (ident ! 3)]"
  using assms by (auto simp add: psl_init_def)

text \<open>
  Claim C4 does not hold of the code. The name \<^verbatim>\<open>afu9.0\<close> has the right length,
  prefix and separator and a major digit out of range. Line 305 then calls
  \<^verbatim>\<open>warn_msg\<close> with the \<^verbatim>\<open>char\<close> \<^verbatim>\<open>'9'\<close> for the \<^verbatim>\<open>%s\<close> of its format: the
  behaviour of the call is undefined, and the call of \<^verbatim>\<open>psl_init\<close> does not get to
  return its failure signal. The same holds of \<^verbatim>\<open>afu0.9\<close>, whose minor digit is out
  of range: line 309 hands over \<^verbatim>\<open>id[3]\<close> again, the \<^verbatim>\<open>char\<close> \<^verbatim>\<open>'0'\<close>. A name of
  the wrong shape, such as \<^verbatim>\<open>psl0.0\<close>, is rejected as the claim says, and
  \<^verbatim>\<open>afu0.0\<close> is accepted.
\<close>

theorem psl_init_bad_digit_undefined:
  "\<not> name_accepted ''afu9.0''
   \<and> psl_init example_config example_init example_registry ''afu9.0'' ''localhost'' 12345 =
       (Undefined, example_registry, [Warn_msg_char ''Invalid afu major: %s'' CHR ''9''])
   \<and> \<not> name_accepted ''afu0.9''
   \<and> psl_init example_config example_init example_registry ''afu0.9'' ''localhost'' 12345 =
       (Undefined, example_registry, [Warn_msg_char ''Invalid afu minor: %s'' CHR ''0''])
   \<and> \<not> name_accepted ''psl0.0''
   \<and> psl_init example_config example_init example_registry ''psl0.0'' ''localhost'' 12345 =
       (Returned (- 1), example_registry, [Warn_msg ''Invalid afu name: %s'', Free_mem 100])
   \<and> name_accepted ''afu0.0''
   \<and> fst (psl_init example_config example_init example_registry ''afu0.0'' ''localhost''
        12345) = Returned 0
   \<and> head (fst (snd (psl_init example_config example_init example_registry ''afu0.0''
        ''localhost'' 12345))) = Some 100"
  by (simp add: psl_init_def init_subsystems_def add_psl_def init_fail_lock_def init_fail_def
      opt_free_def str_free_def name_accepted_def bad_name_def bad_digit_def make_dbg_id_def
      zero_psl_def Let_def example_init_def example_config_def example_registry_def)

text \<open>
  Claim C5 does not hold of the code. In the call below \<^verbatim>\<open>job_init\<close> returns the job
  record at address 500 and \<^verbatim>\<open>mmio_init\<close> then fails. The call returns -1 after
  destroying the session lock and releasing the AFU event record, the two strings and
  the session record; the job record is not released and its lock is not destroyed.
  The teardown of the loop does both for a session that holds a job record.
\<close>

theorem psl_init_leaks_job:
  "job_init (example_init\<lparr>mmio_init := None\<rparr>) = Some 500
   \<and> psl_init example_config (example_init\<lparr>mmio_init := None\<rparr>) example_registry ''afu0.0''
        ''localhost'' 12345 =
       (Returned (- 1), example_registry,
        [Mutex_init Psl_lock, Info_msg ''Attempting to connect AFU: %s @ %s:%d'',
         Psl_init_afu_event, Debug_afu_connect 0, Job_init, Mmio_init, Perror ''mmio_init'',
         Mutex_destroy Psl_lock, Free_mem 400, Free_mem 300, Free_mem 200, Free_mem 100])
   \<and> Free_mem 500 \<notin> set (snd (snd (psl_init example_config
        (example_init\<lparr>mmio_init := None\<rparr>) example_registry ''afu0.0'' ''localhost'' 12345)))
   \<and> Mutex_destroy Job_lock \<notin> set (snd (snd (psl_init example_config
        (example_init\<lparr>mmio_init := None\<rparr>) example_registry ''afu0.0'' ''localhost'' 12345)))
   \<and> teardown (zero_psl\<lparr>job_h := Some 500, head_ref := Some 0\<rparr>) =
       [Debug_afu_drop 0, Info_msg ''Disconnected %s @ %s:%d\<newline>'', Mutex_destroy Psl_lock,
        Mutex_destroy Job_lock, Free_mem 500, Pthread_exit]"
  by (simp add: psl_init_def init_subsystems_def init_fail_lock_def init_fail_def opt_free_def
      str_free_def bad_name_def bad_digit_def make_dbg_id_def zero_psl_def Let_def
      example_init_def example_config_def teardown_def)

end
